theory Spec2Isabelle
  imports Complex_Main
begin

section \<open>The hotness scorer of \<open>csrc/vtp_core.cpp\<close>\<close>

text \<open>
  \<open>compute_hotness_scores\<close> walks the dictionary \<open>access_counts\<close> once and stores, for
  every key, the access count scaled by an exponential decay of the time since the key's
  last access. This theory embeds the function and proves the properties its
  specification states.
\<close>

subsection \<open>Doubles\<close>

text \<open>
  A C++ \<open>double\<close>: a finite value (the real number it stands for), negative zero, an
  infinity or NaN. \<open>Fin 0\<close> is \<open>+0.0\<close>. The payload and the sign of a NaN are not kept.
\<close>

datatype double = Fin real | NZero | PInf | NInf | NaN

fun is_finite :: "double \<Rightarrow> bool" where
  "is_finite (Fin x) = True"
| "is_finite NZero = True"
| "is_finite PInf = False"
| "is_finite NInf = False"
| "is_finite NaN = False"

text \<open>The value of a finite double.\<close>

fun val :: "double \<Rightarrow> real" where
  "val (Fin x) = x"
| "val NZero = 0"
| "val PInf = 0"
| "val NInf = 0"
| "val NaN = 0"

fun sign_bit :: "double \<Rightarrow> bool" where
  "sign_bit (Fin x) = (x < 0)"
| "sign_bit NZero = True"
| "sign_bit PInf = False"
| "sign_bit NInf = True"
| "sign_bit NaN = False"

definition is_zero :: "double \<Rightarrow> bool" where
  "is_zero a = (is_finite a \<and> val a = 0)"

definition zero_of :: "bool \<Rightarrow> double" where
  "zero_of negative = (if negative then NZero else Fin 0)"

definition inf_of :: "bool \<Rightarrow> double" where
  "inf_of negative = (if negative then NInf else PInf)"

text \<open>
  What the source does not contain: the rounding of the floating-point unit, and the
  \<open>std::exp\<close> and the macro \<open>M_LN2\<close> of the C library. \<open>fp_round x\<close> is the double that
  the exact, non-zero result \<open>x\<close> of an operation is rounded to (an infinity when it
  overflows, a zero when it underflows); \<open>std_exp x\<close> is the result of \<open>std::exp\<close> at a
  finite, non-zero argument; \<open>M_LN2\<close> is the value of the macro, a double close to
  \<open>ln 2\<close>. Every definition below takes them as a parameter, and the theorems state
  what they need of them.
\<close>

record platform =
  fp_round :: "real \<Rightarrow> double"
  std_exp :: "real \<Rightarrow> double"
  M_LN2 :: real

subsection \<open>IEEE 754 operations\<close>

fun d_neg :: "double \<Rightarrow> double" where
  "d_neg (Fin x) = (if x = 0 then NZero else Fin (- x))"
| "d_neg NZero = Fin 0"
| "d_neg PInf = NInf"
| "d_neg NInf = PInf"
| "d_neg NaN = NaN"

text \<open>
  Division: NaN for \<open>\<infinity> / \<infinity>\<close> and \<open>0 / 0\<close>; an infinity for a division by zero and a zero
  for a division by an infinity, with the sign of the operands; the rounded quotient
  otherwise.
\<close>

definition d_div :: "platform \<Rightarrow> double \<Rightarrow> double \<Rightarrow> double" where
  "d_div p a b =
     (if a = NaN \<or> b = NaN then NaN
      else if \<not> is_finite a then
        (if \<not> is_finite b then NaN else inf_of (sign_bit a \<noteq> sign_bit b))
      else if \<not> is_finite b then zero_of (sign_bit a \<noteq> sign_bit b)
      else if val b = 0 then
        (if val a = 0 then NaN else inf_of (sign_bit a \<noteq> sign_bit b))
      else if val a = 0 then zero_of (sign_bit a \<noteq> sign_bit b)
      else fp_round p (val a / val b))"

text \<open>
  Subtraction: NaN for \<open>\<infinity> - \<infinity>\<close>; an exact zero difference is \<open>+0.0\<close>, except
  \<open>(-0.0) - (+0.0)\<close>.
\<close>

definition d_sub :: "platform \<Rightarrow> double \<Rightarrow> double \<Rightarrow> double" where
  "d_sub p a b =
     (if a = NaN \<or> b = NaN then NaN
      else if \<not> is_finite a then
        (if \<not> is_finite b \<and> sign_bit a = sign_bit b then NaN else a)
      else if \<not> is_finite b then inf_of (\<not> sign_bit b)
      else if val a - val b = 0 then (if a = NZero \<and> b \<noteq> NZero then NZero else Fin 0)
      else fp_round p (val a - val b))"

text \<open>Multiplication: NaN for \<open>\<infinity> * 0\<close>; the sign of a zero or infinite product is exact.\<close>

definition d_mul :: "platform \<Rightarrow> double \<Rightarrow> double \<Rightarrow> double" where
  "d_mul p a b =
     (if a = NaN \<or> b = NaN then NaN
      else if \<not> is_finite a \<or> \<not> is_finite b then
        (if is_zero a \<or> is_zero b then NaN else inf_of (sign_bit a \<noteq> sign_bit b))
      else if val a * val b = 0 then zero_of (sign_bit a \<noteq> sign_bit b)
      else fp_round p (val a * val b))"

text \<open>\<open>std::exp\<close>: \<open>exp(\<plusminus>0) = 1\<close>, \<open>exp(-\<infinity>) = +0\<close>, \<open>exp(+\<infinity>) = +\<infinity>\<close>.\<close>

definition d_exp :: "platform \<Rightarrow> double \<Rightarrow> double" where
  "d_exp p a =
     (if a = NaN then NaN
      else if a = PInf then PInf
      else if a = NInf then Fin 0
      else if val a = 0 then Fin 1
      else std_exp p (val a))"

text \<open>The comparisons \<open><\<close>, \<open><=\<close> and \<open>==\<close>: false as soon as an operand is NaN.\<close>

definition d_less :: "double \<Rightarrow> double \<Rightarrow> bool" where
  "d_less a b =
     (a \<noteq> NaN \<and> b \<noteq> NaN \<and> a \<noteq> PInf \<and> b \<noteq> NInf \<and> (a = NInf \<or> b = PInf \<or> val a < val b))"

definition d_le :: "double \<Rightarrow> double \<Rightarrow> bool" where
  "d_le a b =
     (a \<noteq> NaN \<and> b \<noteq> NaN \<and>
      (a = NInf \<or> b = PInf \<or> (is_finite a \<and> is_finite b \<and> val a \<le> val b)))"

definition d_eq :: "double \<Rightarrow> double \<Rightarrow> bool" where
  "d_eq a b =
     (a \<noteq> NaN \<and> b \<noteq> NaN \<and> (a = b \<or> (is_finite a \<and> is_finite b \<and> val a = val b)))"

subsection \<open>Python values\<close>

text \<open>
  A value stored in a Python dictionary, as \<open>cast<double>()\<close> sees it: an object that
  converts to the given double (a float), an int, or an object that does not convert.
\<close>

datatype py_value = PyFloat double | PyInt int | PyOther

text \<open>The only exception the function can raise: pybind11's \<open>cast_error\<close>.\<close>

datatype error = CastError

text \<open>
  An int is rounded to the nearest double; one that is too large for a double makes the
  conversion fail.
\<close>

fun cast_double :: "platform \<Rightarrow> py_value \<Rightarrow> error + double" where
  "cast_double p (PyFloat d) = Inr d"
| "cast_double p (PyInt n) =
     (if n = 0 then Inr (Fin 0)
      else if is_finite (fp_round p (of_int n)) then Inr (fp_round p (of_int n))
      else Inl CastError)"
| "cast_double p PyOther = Inl CastError"

subsection \<open>The scorer\<close>

text \<open>
  The body of the loop for one item (lines 35 to 46). \<open>v\<close> is \<open>item.second\<close> and \<open>t\<close> is
  the entry of \<open>last_access_times\<close> for the key: \<open>None\<close> when \<open>contains(key)\<close> is false.
\<close>

definition hotness_score ::
  "platform \<Rightarrow> py_value \<Rightarrow> py_value option \<Rightarrow> double \<Rightarrow> double \<Rightarrow> error + double" where
  "hotness_score p v t current_time decay_constant =
     (case cast_double p v of
        Inl e \<Rightarrow> Inl e
      | Inr count \<Rightarrow>
          (case (case t of None \<Rightarrow> Inr current_time | Some tv \<Rightarrow> cast_double p tv) of
             Inl e \<Rightarrow> Inl e
           | Inr last_time \<Rightarrow>
               (let dt = d_sub p current_time last_time;
                    dt = (if d_less dt (Fin 0) then Fin 0 else dt)
                in Inr (d_mul p count (d_exp p (d_mul p (d_neg decay_constant) dt))))))"

text \<open>
  The loop (lines 33 to 48), over the items of \<open>access_counts\<close> in iteration order.
  An exception leaves the loop and the function; \<open>scores[key] = score\<close> stores or
  overwrites.
\<close>

fun score_loop ::
  "platform \<Rightarrow> ('k \<times> py_value) list \<Rightarrow> ('k \<rightharpoonup> py_value) \<Rightarrow> double \<Rightarrow> double
     \<Rightarrow> ('k \<rightharpoonup> double) \<Rightarrow> error + ('k \<rightharpoonup> double)" where
  "score_loop p [] last_access_times current_time decay_constant scores = Inr scores"
| "score_loop p ((key, v) # items) last_access_times current_time decay_constant scores =
     (case hotness_score p v (last_access_times key) current_time decay_constant of
        Inl e \<Rightarrow> Inl e
      | Inr score \<Rightarrow>
          score_loop p items last_access_times current_time decay_constant
            (scores(key \<mapsto> score)))"

text \<open>
  \<open>access_counts\<close> is the list of the dictionary's items in iteration order (the keys of
  a dictionary are distinct), \<open>last_access_times\<close> is only looked up.
\<close>

definition compute_hotness_scores ::
  "platform \<Rightarrow> ('k \<times> py_value) list \<Rightarrow> ('k \<rightharpoonup> py_value) \<Rightarrow> double \<Rightarrow> double
     \<Rightarrow> error + ('k \<rightharpoonup> double)" where
  "compute_hotness_scores p access_counts last_access_times current_time half_life =
     (let scores = Map.empty;
          decay_constant = d_div p (Fin (M_LN2 p)) half_life
      in score_loop p access_counts last_access_times current_time decay_constant scores)"

text \<open>
  Names for the two arithmetic steps of the loop body: the clamped time delta (lines 43
  and 44) and the decayed count (line 46).
\<close>

definition clamped_delta :: "platform \<Rightarrow> double \<Rightarrow> double \<Rightarrow> double" where
  "clamped_delta p current_time last_time =
     (let dt = d_sub p current_time last_time in if d_less dt (Fin 0) then Fin 0 else dt)"

definition decayed :: "platform \<Rightarrow> double \<Rightarrow> double \<Rightarrow> double \<Rightarrow> double" where
  "decayed p count decay_constant dt = d_mul p count (d_exp p (d_mul p (d_neg decay_constant) dt))"

subsection \<open>The formula of the specification\<close>

text \<open>\<open>max\<close> as \<open>std::max\<close> computes it: the first argument unless it is less than the second.\<close>

definition d_max :: "double \<Rightarrow> double \<Rightarrow> double" where
  "d_max a b = (if d_less a b then b else a)"

text \<open>
  Steps 1 and 2 of the specification's algorithm for one key, in double arithmetic:
  \<open>decayConstant = ln(2) / halfLife\<close> with the double \<open>M_LN2\<close> for \<open>ln(2)\<close>,
  \<open>dt = max(0, currentTime - lastTime)\<close>, \<open>score = count * exp(-decayConstant * dt)\<close>.
\<close>

definition spec_score :: "platform \<Rightarrow> double \<Rightarrow> double \<Rightarrow> double \<Rightarrow> double \<Rightarrow> double" where
  "spec_score p count halfLife currentTime lastTime =
     (let decayConstant = d_div p (Fin (M_LN2 p)) halfLife;
          dt = d_max (Fin 0) (d_sub p currentTime lastTime)
      in d_mul p count (d_exp p (d_mul p (d_neg decayConstant) dt)))"

subsection \<open>Assumptions on the platform\<close>

text \<open>Rounding is monotone and leaves zero alone, as every IEEE 754 rounding mode does.\<close>

definition monotone_rounding :: "platform \<Rightarrow> bool" where
  "monotone_rounding p =
     (fp_round p 0 = Fin 0 \<and> (\<forall>x y. x \<le> y \<longrightarrow> d_le (fp_round p x) (fp_round p y)))"

text \<open>A double is a value that rounding leaves unchanged.\<close>

fun is_double :: "platform \<Rightarrow> double \<Rightarrow> bool" where
  "is_double p (Fin x) = (fp_round p x = Fin x)"
| "is_double p NZero = True"
| "is_double p PInf = True"
| "is_double p NInf = True"
| "is_double p NaN = True"

text \<open>\<open>std::exp\<close> of a negative argument is a finite value between 0 and 1.\<close>

definition exp_in_unit :: "platform \<Rightarrow> bool" where
  "exp_in_unit p = (\<forall>x. x < 0 \<longrightarrow> (\<exists>e. std_exp p x = Fin e \<and> 0 \<le> e \<and> e \<le> 1))"

text \<open>\<open>std::exp\<close> is monotone on the negative arguments.\<close>

definition exp_monotone :: "platform \<Rightarrow> bool" where
  "exp_monotone p = (\<forall>x y. x \<le> y \<longrightarrow> y < 0 \<longrightarrow> d_le (std_exp p x) (std_exp p y))"

text \<open>The smallest positive normal double, \<open>2\<^sup>-\<^sup>1\<^sup>0\<^sup>2\<^sup>2\<close>; its inverse is \<open>2\<^sup>1\<^sup>0\<^sup>2\<^sup>2\<close>.\<close>

definition min_normal :: real where
  "min_normal = 1 / 2 ^ 1022"

text \<open>
  Rounding to nearest in binary64: a result in the normal range, from \<open>2\<^sup>-\<^sup>1\<^sup>0\<^sup>2\<^sup>2\<close> to
  \<open>2\<^sup>1\<^sup>0\<^sup>2\<^sup>3\<close>, is rounded with a relative error of at most \<open>2\<^sup>-\<^sup>5\<^sup>3\<close>.
\<close>

definition accurate_rounding :: "platform \<Rightarrow> bool" where
  "accurate_rounding p =
     (\<forall>x. min_normal \<le> \<bar>x\<bar> \<longrightarrow> \<bar>x\<bar> \<le> 2 / min_normal \<longrightarrow>
        (\<exists>r. fp_round p x = Fin r \<and> \<bar>r - x\<bar> \<le> \<bar>x\<bar> / 2 ^ 53))"

text \<open>\<open>M_LN2\<close> is \<open>ln 2\<close> rounded to a double.\<close>

definition accurate_ln2 :: "platform \<Rightarrow> bool" where
  "accurate_ln2 p = (\<bar>M_LN2 p - ln 2\<bar> \<le> ln 2 / 2 ^ 53)"

text \<open>\<open>std::exp\<close> on \<open>[-1, 0)\<close> has a relative error of at most \<open>2\<^sup>-\<^sup>5\<^sup>2\<close> (one unit in the last place).\<close>

definition accurate_exp :: "platform \<Rightarrow> bool" where
  "accurate_exp p =
     (\<forall>x. - 1 \<le> x \<longrightarrow> x < 0 \<longrightarrow>
        (\<exists>e. std_exp p x = Fin e \<and> \<bar>e - exp x\<bar> \<le> exp x / 2 ^ 52))"

subsection \<open>A platform without rounding error\<close>

text \<open>
  The binary64 range with exact arithmetic inside it: a result overflows from
  \<open>2\<^sup>1\<^sup>0\<^sup>2\<^sup>4 - 2\<^sup>9\<^sup>7\<^sup>0\<close> on, as it does under rounding to nearest, and is exact below.
\<close>

definition exact_round :: "real \<Rightarrow> double" where
  "exact_round x =
     (if 2 ^ 1024 - 2 ^ 970 \<le> x then PInf
      else if x \<le> - (2 ^ 1024 - 2 ^ 970) then NInf
      else Fin x)"

text \<open>The smallest positive double, \<open>5e-324\<close>.\<close>

definition denorm_min :: real where
  "denorm_min = 1 / 2 ^ 1074"

definition exact :: platform where
  "exact = \<lparr>fp_round = exact_round, std_exp = (\<lambda>x. exact_round (exp x)), M_LN2 = ln 2\<rparr>"


section \<open>Properties of the loop\<close>

lemma score_loop_dom:
  "score_loop p items lat ct dc acc = Inr scores \<Longrightarrow> dom scores = dom acc \<union> fst ` set items"
proof (induction items arbitrary: acc)
  case Nil
  then show ?case by simp
next
  case (Cons item items)
  obtain key v where item: "item = (key, v)" by (cases item)
  from Cons.prems item obtain s where
    s: "hotness_score p v (lat key) ct dc = Inr s"
    and rest: "score_loop p items lat ct dc (acc(key \<mapsto> s)) = Inr scores"
    by (auto split: sum.splits)
  from Cons.IH [OF rest] item show ?case by auto
qed

lemma score_loop_other:
  "score_loop p items lat ct dc acc = Inr scores \<Longrightarrow> k \<notin> fst ` set items \<Longrightarrow> scores k = acc k"
proof (induction items arbitrary: acc)
  case Nil
  then show ?case by simp
next
  case (Cons item items)
  obtain key v where item: "item = (key, v)" by (cases item)
  from Cons.prems(1) item obtain s where
    rest: "score_loop p items lat ct dc (acc(key \<mapsto> s)) = Inr scores"
    by (auto split: sum.splits)
  from Cons.prems(2) item have "k \<noteq> key" and "k \<notin> fst ` set items" by auto
  with Cons.IH [OF rest] show ?case by simp
qed

text \<open>With distinct keys, the score stored for a key is the one computed from its item.\<close>

lemma score_loop_lookup:
  "score_loop p items lat ct dc acc = Inr scores \<Longrightarrow> distinct (map fst items) \<Longrightarrow>
   (k, v) \<in> set items \<Longrightarrow> \<exists>s. hotness_score p v (lat k) ct dc = Inr s \<and> scores k = Some s"
proof (induction items arbitrary: acc)
  case Nil
  then show ?case by simp
next
  case (Cons item items)
  obtain key w where item: "item = (key, w)" by (cases item)
  from Cons.prems(1) item obtain s where
    s: "hotness_score p w (lat key) ct dc = Inr s"
    and rest: "score_loop p items lat ct dc (acc(key \<mapsto> s)) = Inr scores"
    by (auto split: sum.splits)
  from Cons.prems(2) item have fresh: "key \<notin> fst ` set items"
    and dist: "distinct (map fst items)" by auto
  show ?case
  proof (cases "(k, v) \<in> set items")
    case True
    from Cons.IH [OF rest dist True] show ?thesis .
  next
    case False
    with Cons.prems(3) item have same: "k = key" "v = w" by auto
    from score_loop_other [OF rest fresh] have "scores key = Some s" by simp
    with s same show ?thesis by simp
  qed
qed

text \<open>Every stored score was there before the loop or was computed from an item.\<close>

lemma score_loop_values:
  "score_loop p items lat ct dc acc = Inr scores \<Longrightarrow> scores k = Some s \<Longrightarrow>
   acc k = Some s \<or> (\<exists>v. (k, v) \<in> set items \<and> hotness_score p v (lat k) ct dc = Inr s)"
proof (induction items arbitrary: acc)
  case Nil
  then show ?case by simp
next
  case (Cons item items)
  obtain key w where item: "item = (key, w)" by (cases item)
  from Cons.prems(1) item obtain s' where
    s': "hotness_score p w (lat key) ct dc = Inr s'"
    and rest: "score_loop p items lat ct dc (acc(key \<mapsto> s')) = Inr scores"
    by (auto split: sum.splits)
  from Cons.IH [OF rest Cons.prems(2)]
  have "(acc(key \<mapsto> s')) k = Some s
      \<or> (\<exists>v. (k, v) \<in> set items \<and> hotness_score p v (lat k) ct dc = Inr s)" .
  with s' item show ?case by (auto split: if_splits)
qed

text \<open>What makes the loop body return a score.\<close>

lemma hotness_score_Inr:
  "hotness_score p v t ct dc = Inr s \<longleftrightarrow>
     (\<exists>c lt. cast_double p v = Inr c
        \<and> (t = None \<and> lt = ct \<or> (\<exists>tv. t = Some tv \<and> cast_double p tv = Inr lt))
        \<and> s = decayed p c dc (clamped_delta p ct lt))"
  by (auto simp: hotness_score_def decayed_def clamped_delta_def Let_def
      split: sum.splits option.splits)

text \<open>The loop raises only when a value does not convert to \<open>double\<close>.\<close>

lemma score_loop_returns:
  "\<forall>(k, v) \<in> set items. (\<exists>c. cast_double p v = Inr c)
       \<and> (\<forall>tv. lat k = Some tv \<longrightarrow> (\<exists>t. cast_double p tv = Inr t)) \<Longrightarrow>
   \<exists>scores. score_loop p items lat ct dc acc = Inr scores"
proof (induction items arbitrary: acc)
  case Nil
  then show ?case by simp
next
  case (Cons item items)
  obtain key w where item: "item = (key, w)" by (cases item)
  from Cons.prems item obtain c where c: "cast_double p w = Inr c" by auto
  from Cons.prems item
  have t: "\<forall>tv. lat key = Some tv \<longrightarrow> (\<exists>t. cast_double p tv = Inr t)" by auto
  from Cons.prems have rest: "\<forall>(k, v) \<in> set items. (\<exists>c. cast_double p v = Inr c)
       \<and> (\<forall>tv. lat k = Some tv \<longrightarrow> (\<exists>t. cast_double p tv = Inr t))" by auto
  have "\<exists>s. hotness_score p w (lat key) ct dc = Inr s"
  proof (cases "lat key")
    case None
    with c show ?thesis unfolding hotness_score_Inr by blast
  next
    case (Some tv)
    with t obtain lt where "cast_double p tv = Inr lt" by blast
    with Some c show ?thesis unfolding hotness_score_Inr by blast
  qed
  then obtain s where s: "hotness_score p w (lat key) ct dc = Inr s" ..
  from Cons.IH [OF rest] obtain scores where
    "score_loop p items lat ct dc (acc(key \<mapsto> s)) = Inr scores" by blast
  with s item have "score_loop p (item # items) lat ct dc acc = Inr scores" by simp
  then show ?case by blast
qed

lemma compute_lookup:
  assumes "compute_hotness_scores p access_counts last_access_times current_time half_life
             = Inr scores"
    and "distinct (map fst access_counts)"
    and "(k, v) \<in> set access_counts"
  shows "\<exists>s. hotness_score p v (last_access_times k) current_time
               (d_div p (Fin (M_LN2 p)) half_life) = Inr s \<and> scores k = Some s"
  using assms score_loop_lookup [of p access_counts last_access_times current_time
      "d_div p (Fin (M_LN2 p)) half_life" Map.empty scores k v]
  by (simp add: compute_hotness_scores_def)

text \<open>
  The score of a key of \<open>access_counts\<close>: the count that its value converts to, decayed
  over the clamped time since the key's timestamp, or since \<open>current_time\<close> without one.
\<close>

lemma compute_score:
  assumes "compute_hotness_scores p access_counts last_access_times current_time half_life
             = Inr scores"
    and "distinct (map fst access_counts)"
    and "(k, v) \<in> set access_counts"
    and "cast_double p v = Inr c"
    and "last_access_times k = None \<and> lt = current_time
         \<or> (\<exists>tv. last_access_times k = Some tv \<and> cast_double p tv = Inr lt)"
  shows "scores k = Some (decayed p c (d_div p (Fin (M_LN2 p)) half_life)
                            (clamped_delta p current_time lt))"
proof -
  from compute_lookup [OF assms(1-3)] obtain s where
    s: "hotness_score p v (last_access_times k) current_time
          (d_div p (Fin (M_LN2 p)) half_life) = Inr s"
    and k: "scores k = Some s" by blast
  from s obtain c' lt' where c': "cast_double p v = Inr c'"
    and lt': "last_access_times k = None \<and> lt' = current_time
         \<or> (\<exists>tv. last_access_times k = Some tv \<and> cast_double p tv = Inr lt')"
    and sv: "s = decayed p c' (d_div p (Fin (M_LN2 p)) half_life) (clamped_delta p current_time lt')"
    unfolding hotness_score_Inr by blast
  from c' assms(4) have "c' = c" by simp
  moreover from lt' assms(5) have "lt' = lt" by auto
  ultimately show ?thesis using k sv by simp
qed

section \<open>The arithmetic of one item\<close>

lemmas d_defs = d_mul_def d_div_def d_sub_def d_exp_def d_less_def d_le_def d_eq_def
  is_zero_def zero_of_def inf_of_def

lemma round_not_NaN: "monotone_rounding p \<Longrightarrow> fp_round p x \<noteq> NaN"
proof -
  assume "monotone_rounding p"
  then have "d_le (fp_round p x) (fp_round p x)" by (simp add: monotone_rounding_def)
  then show ?thesis by (auto simp: d_le_def)
qed

lemma round_nonpos: "monotone_rounding p \<Longrightarrow> x \<le> 0 \<Longrightarrow> d_le (fp_round p x) (Fin 0)"
  by (metis monotone_rounding_def)

lemma round_nonneg: "monotone_rounding p \<Longrightarrow> 0 \<le> x \<Longrightarrow> d_le (Fin 0) (fp_round p x)"
  by (metis monotone_rounding_def)

lemma round_mono: "monotone_rounding p \<Longrightarrow> x \<le> y \<Longrightarrow> d_le (fp_round p x) (fp_round p y)"
  by (simp add: monotone_rounding_def)

text \<open>Multiplying a double by one is exact.\<close>

lemma d_mul_one: "is_double p c \<Longrightarrow> d_mul p c (Fin 1) = c"
  by (cases c) (auto simp: d_defs)

text \<open>With a finite decay constant and a zero time delta the decay factor is one.\<close>

lemma decay_factor_zero_delta:
  "is_finite dc \<Longrightarrow> is_zero z \<Longrightarrow> d_exp p (d_mul p (d_neg dc) z) = Fin 1"
  by (cases dc; cases z) (auto simp: d_defs)

lemma decayed_zero_delta:
  "is_finite dc \<Longrightarrow> is_zero z \<Longrightarrow> is_double p c \<Longrightarrow> decayed p c dc z = c"
  by (simp add: decayed_def decay_factor_zero_delta d_mul_one)

text \<open>When the clamped time delta is zero.\<close>

lemma clamped_delta_same: "is_finite ct \<Longrightarrow> clamped_delta p ct ct = Fin 0"
  by (cases ct) (auto simp: clamped_delta_def d_defs)

lemma clamped_delta_eq: "is_finite ct \<Longrightarrow> d_eq lt ct \<Longrightarrow> is_zero (clamped_delta p ct lt)"
  by (cases ct; cases lt) (auto simp: clamped_delta_def d_defs)

lemma clamped_zero_or_less: "d_le r (Fin 0) \<Longrightarrow> is_zero (if d_less r (Fin 0) then Fin 0 else r)"
  by (cases r) (auto simp: d_defs)

lemma clamped_delta_less:
  assumes "monotone_rounding p" and "d_less ct lt"
  shows "is_zero (clamped_delta p ct lt)"
proof -
  have "d_le (d_sub p ct lt) (Fin 0)"
  proof (cases "is_finite ct \<and> is_finite lt")
    case True
    with assms(2) have "val ct - val lt < 0" by (auto simp: d_less_def)
    with True have "d_sub p ct lt = fp_round p (val ct - val lt)"
      and "val ct - val lt \<le> 0" by (auto simp: d_sub_def)
    with assms(1) show ?thesis by (simp add: round_nonpos)
  next
    case False
    with assms(2) show ?thesis by (cases ct; cases lt) (auto simp: d_defs)
  qed
  then show ?thesis unfolding clamped_delta_def Let_def by (rule clamped_zero_or_less)
qed

text \<open>The clamped time delta is never negative, and is NaN only if the difference is.\<close>

lemma clamped_delta_nonneg:
  "d_sub p ct lt \<noteq> NaN \<Longrightarrow> d_le (Fin 0) (clamped_delta p ct lt)"
  by (cases "d_sub p ct lt") (auto simp: clamped_delta_def d_less_def d_le_def)

lemma d_sub_not_NaN:
  "monotone_rounding p \<Longrightarrow> is_finite ct \<Longrightarrow> lt \<noteq> NaN \<Longrightarrow> d_sub p ct lt \<noteq> NaN"
  by (cases ct; cases lt) (auto simp: d_defs round_not_NaN)

text \<open>
  With a finite positive decay constant and a time delta that is not negative, the
  decay factor is a finite value between 0 and 1.
\<close>

lemma decay_factor_unit:
  assumes "monotone_rounding p" and "exp_in_unit p" and "0 < d" and "d_le (Fin 0) dt"
  shows "\<exists>e. d_exp p (d_mul p (d_neg (Fin d)) dt) = Fin e \<and> 0 \<le> e \<and> e \<le> 1"
proof -
  have unit: "\<exists>e. d_exp p r = Fin e \<and> 0 \<le> e \<and> e \<le> 1" if "d_le r (Fin 0)" for r
  proof (cases "is_finite r \<and> val r \<noteq> 0")
    case True
    with that have "val r < 0" by (auto simp: d_le_def)
    with assms(2) obtain e where "std_exp p (val r) = Fin e" "0 \<le> e" "e \<le> 1"
      unfolding exp_in_unit_def by blast
    with True show ?thesis by (cases r) (auto simp: d_exp_def)
  next
    case False
    with that show ?thesis by (cases r) (auto simp: d_exp_def d_le_def)
  qed
  have "d_le (d_mul p (d_neg (Fin d)) dt) (Fin 0)"
  proof (cases "is_finite dt \<and> val dt \<noteq> 0")
    case True
    with assms(4) have "0 < val dt" by (auto simp: d_le_def)
    with assms(3) have "- d * val dt \<le> 0" "- d * val dt \<noteq> 0" by (auto simp: mult_le_0_iff)
    with True assms(3) have "d_mul p (d_neg (Fin d)) dt = fp_round p (- d * val dt)"
      by (auto simp: d_mul_def)
    with assms(1) \<open>- d * val dt \<le> 0\<close> show ?thesis by (simp add: round_nonpos)
  next
    case False
    with assms(3,4) show ?thesis by (cases dt) (auto simp: d_defs)
  qed
  then show ?thesis by (rule unit)
qed

text \<open>A finite count that is not negative, times a factor between 0 and 1.\<close>

lemma count_times_unit_nonneg:
  assumes "monotone_rounding p" and "is_finite c" and "0 \<le> val c" and "0 \<le> e"
  shows "d_le (Fin 0) (d_mul p c (Fin e))"
proof (cases "val c * e = 0")
  case True
  with assms(2) show ?thesis by (cases c) (auto simp: d_defs)
next
  case False
  with assms(2) have "d_mul p c (Fin e) = fp_round p (val c * e)" by (auto simp: d_mul_def)
  moreover from assms(3,4) have "0 \<le> val c * e" by simp
  ultimately show ?thesis using assms(1) by (simp add: round_nonneg)
qed

lemma count_times_unit_le:
  assumes "monotone_rounding p" and "is_double p c" and "is_finite c" and "0 \<le> val c"
    and "0 \<le> e" and "e \<le> 1"
  shows "d_le (d_mul p c (Fin e)) c"
proof (cases "val c * e = 0")
  case True
  with assms(3,4) show ?thesis by (cases c) (auto simp: d_defs)
next
  case False
  with assms(3) obtain x where c: "c = Fin x" and x: "x \<noteq> 0" by (cases c) auto
  with False have "d_mul p c (Fin e) = fp_round p (x * e)" by (auto simp: d_mul_def)
  moreover from assms(4,6) c have "x * e \<le> x" by (simp add: mult_left_le)
  then have "d_le (fp_round p (x * e)) (fp_round p x)" using assms(1) by (simp add: round_mono)
  moreover from assms(2) c have "fp_round p x = Fin x" by simp
  ultimately show ?thesis using c by simp
qed

text \<open>Each step of the loop body is monotone in the time delta.\<close>

lemma clamp_mono:
  "d_le a b \<Longrightarrow>
   d_le (if d_less a (Fin 0) then Fin 0 else a) (if d_less b (Fin 0) then Fin 0 else b)"
  by (cases a; cases b) (auto simp: d_less_def d_le_def)

lemma clamped_delta_mono:
  "d_le (d_sub p ct1 lt1) (d_sub p ct2 lt2) \<Longrightarrow>
   d_le (clamped_delta p ct1 lt1) (clamped_delta p ct2 lt2)"
  unfolding clamped_delta_def Let_def by (rule clamp_mono)

lemma neg_product_nonpos:
  assumes "monotone_rounding p" and "0 < d" and "d_le (Fin 0) a"
  shows "d_le (d_mul p (d_neg (Fin d)) a) (Fin 0)"
proof (cases "is_finite a \<and> val a \<noteq> 0")
  case True
  with assms(3) have "0 < val a" by (auto simp: d_le_def)
  with assms(2) have "- d * val a \<le> 0" "- d * val a \<noteq> 0" by (auto simp: mult_le_0_iff)
  with True assms(2) have "d_mul p (d_neg (Fin d)) a = fp_round p (- d * val a)"
    by (auto simp: d_mul_def)
  with assms(1) \<open>- d * val a \<le> 0\<close> show ?thesis by (simp add: round_nonpos)
next
  case False
  with assms(2,3) show ?thesis by (cases a) (auto simp: d_defs)
qed

lemma neg_product_antimono:
  assumes "monotone_rounding p" and "0 < d" and "d_le (Fin 0) a" and "d_le a b"
  shows "d_le (d_mul p (d_neg (Fin d)) b) (d_mul p (d_neg (Fin d)) a)"
proof (cases "is_finite b")
  case False
  with assms(3,4) have b: "b = PInf" by (cases a; cases b) (auto simp: d_le_def)
  with assms(2) have "d_mul p (d_neg (Fin d)) b = NInf" by (auto simp: d_defs)
  moreover from neg_product_nonpos [OF assms(1-3)]
  have "d_mul p (d_neg (Fin d)) a \<noteq> NaN" by (auto simp: d_le_def)
  ultimately show ?thesis by (simp add: d_le_def)
next
  case True
  with assms(3,4) have fa: "is_finite a" and le: "val a \<le> val b" and a0: "0 \<le> val a"
    by (cases a; cases b; auto simp: d_le_def)+
  show ?thesis
  proof (cases "val a = 0")
    case True
    from assms(3,4) have "d_le (Fin 0) b" by (cases a; cases b) (auto simp: d_le_def)
    from neg_product_nonpos [OF assms(1,2) this]
    have "d_le (d_mul p (d_neg (Fin d)) b) (Fin 0)" .
    moreover from True fa assms(2) have "is_zero (d_mul p (d_neg (Fin d)) a)"
      by (cases a) (auto simp: d_defs)
    ultimately show ?thesis
      by (cases "d_mul p (d_neg (Fin d)) a"; cases "d_mul p (d_neg (Fin d)) b")
        (auto simp: d_le_def is_zero_def)
  next
    case False
    with a0 le have pa: "0 < val a" and pb: "0 < val b" by auto
    with assms(2) fa \<open>is_finite b\<close>
    have "d_mul p (d_neg (Fin d)) a = fp_round p (- d * val a)"
      and "d_mul p (d_neg (Fin d)) b = fp_round p (- d * val b)"
      by (auto simp: d_mul_def)
    moreover from le assms(2) have "- d * val b \<le> - d * val a" by simp
    ultimately show ?thesis using assms(1) by (simp add: round_mono)
  qed
qed

lemma d_exp_mono_nonpos:
  assumes "exp_in_unit p" and "exp_monotone p" and "d_le r2 r1" and "d_le r1 (Fin 0)"
  shows "\<exists>e1 e2. d_exp p r1 = Fin e1 \<and> d_exp p r2 = Fin e2 \<and> 0 \<le> e2 \<and> e2 \<le> e1 \<and> e1 \<le> 1"
proof -
  have unit: "\<exists>e. d_exp p r = Fin e \<and> 0 \<le> e \<and> e \<le> 1" if "d_le r (Fin 0)" for r
  proof (cases "is_finite r \<and> val r \<noteq> 0")
    case True
    with that have "val r < 0" by (auto simp: d_le_def)
    with assms(1) obtain e where "std_exp p (val r) = Fin e" "0 \<le> e" "e \<le> 1"
      unfolding exp_in_unit_def by blast
    with True show ?thesis by (cases r) (auto simp: d_exp_def)
  next
    case False
    with that show ?thesis by (cases r) (auto simp: d_exp_def d_le_def)
  qed
  from assms(3,4) have "d_le r2 (Fin 0)" by (cases r1; cases r2) (auto simp: d_le_def)
  from unit [OF this] obtain e2 where e2: "d_exp p r2 = Fin e2" "0 \<le> e2" "e2 \<le> 1" by blast
  from unit [OF assms(4)] obtain e1 where e1: "d_exp p r1 = Fin e1" "0 \<le> e1" "e1 \<le> 1" by blast
  have "e2 \<le> e1"
  proof (cases "is_finite r1 \<and> val r1 \<noteq> 0")
    case True
    with assms(4) have n1: "val r1 < 0" by (auto simp: d_le_def)
    show ?thesis
    proof (cases "r2 = NInf")
      case True
      with e2 e1 show ?thesis by (simp add: d_exp_def)
    next
      case False
      with assms(3) \<open>is_finite r1 \<and> val r1 \<noteq> 0\<close>
      have f2: "is_finite r2" and le: "val r2 \<le> val r1"
        by (cases r1; cases r2; auto simp: d_le_def)+
      with n1 have n2: "val r2 < 0" by simp
      from assms(2) le n1 have "d_le (std_exp p (val r2)) (std_exp p (val r1))"
        unfolding exp_monotone_def by blast
      moreover from f2 n2 have "d_exp p r2 = std_exp p (val r2)"
        by (cases r2) (auto simp: d_exp_def)
      moreover from True n1 have "d_exp p r1 = std_exp p (val r1)"
        by (cases r1) (auto simp: d_exp_def)
      ultimately have "d_le (d_exp p r2) (d_exp p r1)" by simp
      then have "d_le (Fin e2) (Fin e1)" unfolding e1(1) e2(1) .
      then show ?thesis by (simp add: d_le_def)
    qed
  next
    case False
    with assms(4) have "d_exp p r1 = Fin 1 \<or> r1 = NInf"
      by (cases r1) (auto simp: d_exp_def d_le_def)
    then show ?thesis
    proof
      assume "d_exp p r1 = Fin 1"
      with e1 e2 show ?thesis by simp
    next
      assume "r1 = NInf"
      with assms(3) have "r2 = NInf" by (cases r2) (auto simp: d_le_def)
      with \<open>r1 = NInf\<close> e1 e2 show ?thesis by (simp add: d_exp_def)
    qed
  qed
  with e1 e2 show ?thesis by blast
qed

lemma count_times_mono:
  assumes "monotone_rounding p" and "is_finite c" and "0 \<le> val c"
    and "0 \<le> e2" and "e2 \<le> e1"
  shows "d_le (d_mul p c (Fin e2)) (d_mul p c (Fin e1))"
proof (cases "val c * e1 = 0")
  case True
  with assms(4,5) have "val c * e2 = 0" by auto
  with True assms(2) show ?thesis by (cases c) (auto simp: d_defs)
next
  case False
  with assms(2) have r1: "d_mul p c (Fin e1) = fp_round p (val c * e1)"
    by (auto simp: d_mul_def)
  from False assms(3,4,5) have pos: "0 < val c" "0 \<le> val c * e1" by auto
  show ?thesis
  proof (cases "val c * e2 = 0")
    case True
    with assms(2) pos(1) have "d_mul p c (Fin e2) = Fin 0" by (cases c) (auto simp: d_defs)
    with r1 pos(2) assms(1) show ?thesis by (simp add: round_nonneg)
  next
    case False
    with assms(2) have "d_mul p c (Fin e2) = fp_round p (val c * e2)"
      by (auto simp: d_mul_def)
    moreover from assms(3,5) have "val c * e2 \<le> val c * e1" by (simp add: mult_left_mono)
    ultimately show ?thesis using r1 assms(1) by (simp add: round_mono)
  qed
qed

text \<open>
  The clamp of the code and the \<open>max\<close> of the specification differ only in the sign of a
  zero, which the decay factor does not see.
\<close>

lemma decay_factor_zero_sign:
  "is_zero z \<Longrightarrow> d_exp p (d_mul p a z) = d_exp p (d_mul p a (Fin 0))"
  by (cases a; cases z) (auto simp: d_defs)

lemma clamp_is_max:
  assumes "x \<noteq> NaN"
  shows "d_exp p (d_mul p a (if d_less x (Fin 0) then Fin 0 else x))
           = d_exp p (d_mul p a (d_max (Fin 0) x))"
proof (cases "is_zero x")
  case True
  then have "d_max (Fin 0) x = Fin 0" "\<not> d_less x (Fin 0)"
    by (cases x; auto simp: d_max_def d_less_def is_zero_def)+
  with True show ?thesis by (simp add: decay_factor_zero_sign)
next
  case False
  with assms have "(if d_less x (Fin 0) then Fin 0 else x) = d_max (Fin 0) x"
    by (cases x) (auto simp: d_max_def d_less_def is_zero_def)
  then show ?thesis by simp
qed

lemma decayed_is_spec_score:
  "d_sub p ct lt \<noteq> NaN \<Longrightarrow>
   decayed p c (d_div p (Fin (M_LN2 p)) hl) (clamped_delta p ct lt) = spec_score p c hl ct lt"
  by (simp add: decayed_def clamped_delta_def spec_score_def Let_def clamp_is_max)

section \<open>The platform without rounding error\<close>

lemma ln2_bounds: "1 / 2 \<le> ln (2::real)" "ln (2::real) \<le> 1"
proof -
  have "exp (1 / 2 :: real) \<le> 1 + 1 / 2 + (1 / 2)\<^sup>2" by (rule exp_bound) simp_all
  also have "\<dots> \<le> 2" by (simp add: power2_eq_square)
  finally have "exp (1 / 2 :: real) \<le> exp (ln 2)" by simp
  then show "1 / 2 \<le> ln (2::real)" by (simp only: exp_le_cancel_iff)
  have "(2::real) \<le> exp 1" using exp_ge_add_one_self [of "1::real"] by simp
  then have "exp (ln 2) \<le> exp (1::real)" by simp
  then show "ln (2::real) \<le> 1" by (simp only: exp_le_cancel_iff)
qed

lemma exact_round_Fin: "\<bar>x\<bar> \<le> 2 ^ 1023 \<Longrightarrow> exact_round x = Fin x"
  by (auto simp: exact_round_def)

lemma in_range: "\<bar>x\<bar> \<le> 1 \<Longrightarrow> \<bar>x::real\<bar> \<le> 2 ^ 1023"
proof -
  have "(1::real) \<le> 2 ^ 1023" by (rule one_le_power) simp
  then show "\<bar>x\<bar> \<le> 1 \<Longrightarrow> \<bar>x\<bar> \<le> 2 ^ 1023" by (rule order_trans [rotated])
qed

lemma exact_round_mono: "x \<le> y \<Longrightarrow> d_le (exact_round x) (exact_round y)"
  by (auto simp: exact_round_def d_le_def)

lemma exact_monotone_rounding: "monotone_rounding exact"
  by (simp add: monotone_rounding_def exact_def exact_round_mono) (simp add: exact_round_def)

lemma exact_exp_negative: "x < 0 \<Longrightarrow> std_exp exact x = Fin (exp x)"
proof -
  assume "x < 0"
  then have "\<bar>exp x\<bar> \<le> 1" by simp
  then have "\<bar>exp x\<bar> \<le> 2 ^ 1023" by (rule in_range)
  then have "exact_round (exp x) = Fin (exp x)" by (rule exact_round_Fin)
  then show ?thesis by (simp add: exact_def)
qed

lemma exact_exp_in_unit: "exp_in_unit exact"
  by (simp add: exp_in_unit_def exact_exp_negative)

lemma exact_exp_monotone: "exp_monotone exact"
  by (simp add: exp_monotone_def exact_def exact_round_mono)

lemma exact_accurate_rounding: "accurate_rounding exact"
  by (simp add: accurate_rounding_def exact_def exact_round_Fin min_normal_def)

lemma exact_accurate_ln2: "accurate_ln2 exact"
  using ln2_bounds(1) by (simp add: accurate_ln2_def exact_def)

lemma exact_accurate_exp: "accurate_exp exact"
  by (simp add: accurate_exp_def exact_exp_negative)

lemma exact_is_double: "\<bar>x\<bar> \<le> 2 ^ 1023 \<Longrightarrow> is_double exact (Fin x)"
  by (simp add: exact_def exact_round_Fin)

lemma ln2_facts: "ln (2::real) \<noteq> 0" "\<not> ln (2::real) < 0" "0 < ln (2::real)"
  using ln2_bounds by auto

lemma exact_round_small: "\<bar>x\<bar> \<le> 1 \<Longrightarrow> exact_round x = Fin x"
  by (rule exact_round_Fin) (rule in_range)

lemma exact_round_numeral:
  "exact_round 10 = Fin 10" "exact_round 5 = Fin 5" "exact_round 20 = Fin 20"
  "exact_round (- 10) = Fin (- 10)" "exact_round 4 = Fin 4" "exact_round 7 = Fin 7"
  "exact_round (1 / 2) = Fin (1 / 2)" "exact_round 1 = Fin 1" "exact_round (- 1) = Fin (- 1)"
  "exact_round (- (1 / 2)) = Fin (- (1 / 2))" "exact_round 2 = Fin 2"
  by (simp_all add: exact_round_def)

lemma exact_round_ln2:
  "exact_round (ln 2) = Fin (ln 2)" "exact_round (- ln 2) = Fin (- ln 2)"
  "exact_round (ln 2 / 10) = Fin (ln 2 / 10)" "exact_round (- (ln 2 / 10)) = Fin (- (ln 2 / 10))"
  using ln2_bounds by (auto intro!: exact_round_small)

text \<open>The decay constant on this platform, for some half-lives.\<close>

lemma decay_10: "d_div exact (Fin (M_LN2 exact)) (Fin 10) = Fin (ln 2 / 10)"
  by (simp add: d_div_def ln2_facts exact_def exact_round_ln2)

lemma decay_1: "d_div exact (Fin (M_LN2 exact)) (Fin 1) = Fin (ln 2)"
  by (simp add: d_div_def ln2_facts exact_def exact_round_ln2)

lemma decay_minus_10: "d_div exact (Fin (M_LN2 exact)) (Fin (- 10)) = Fin (- (ln 2 / 10))"
  by (simp add: d_div_def ln2_facts exact_def exact_round_ln2)

lemma decay_zero: "d_div exact (Fin (M_LN2 exact)) (Fin 0) = PInf"
  by (simp add: d_div_def exact_def ln2_facts inf_of_def)

lemma decay_negative_zero: "d_div exact (Fin (M_LN2 exact)) NZero = NInf"
  by (simp add: d_div_def exact_def ln2_facts inf_of_def)

text \<open>The decay constant of the smallest positive half-life overflows.\<close>

lemma denorm_min_pos: "0 < denorm_min" "denorm_min \<noteq> 0" "\<not> denorm_min < 0"
  by (simp_all add: denorm_min_def)

lemma decay_tiny: "d_div exact (Fin (M_LN2 exact)) (Fin denorm_min) = PInf"
proof -
  have "(2::real) ^ 1024 - 2 ^ 970 \<le> 2 ^ 1024" by simp
  also have "\<dots> \<le> 1 / 2 * 2 ^ 1074" by simp
  also have "\<dots> \<le> ln 2 * 2 ^ 1074" using ln2_bounds(1) by (rule mult_right_mono) simp
  finally have "exact_round (ln 2 * 2 ^ 1074) = PInf" by (simp add: exact_round_def)
  then show ?thesis by (simp add: d_div_def ln2_facts exact_def denorm_min_def)
qed

lemma exact_round_tiny: "exact_round denorm_min = Fin denorm_min"
  by (rule exact_round_small) (simp add: denorm_min_def)

lemmas run_simps = hotness_score_def d_mul_def d_sub_def d_exp_def d_less_def is_zero_def
  zero_of_def inf_of_def exact_def ln2_facts exp_minus exact_round_numeral exact_round_ln2
  exact_round_tiny denorm_min_pos

text \<open>The example of the specification, and more runs.\<close>

lemma run_example:
  "compute_hotness_scores exact [(''a'', PyFloat (Fin 10)), (''b'', PyFloat (Fin 4))]
       [''a'' \<mapsto> PyFloat (Fin 0)] (Fin 10) (Fin 10)
     = Inr [''a'' \<mapsto> Fin 5, ''b'' \<mapsto> Fin 4]"
  unfolding compute_hotness_scores_def Let_def decay_10 by (simp add: run_simps)

lemma run_example_ints:
  "compute_hotness_scores exact [(''a'', PyInt 10), (''b'', PyInt 4)]
       [''a'' \<mapsto> PyInt 0, ''z'' \<mapsto> PyFloat (Fin 3)] (Fin 10) (Fin 10)
     = Inr [''a'' \<mapsto> Fin 5, ''b'' \<mapsto> Fin 4]"
  unfolding compute_hotness_scores_def Let_def decay_10 by (simp add: run_simps)

lemma run_example_earlier:
  "compute_hotness_scores exact [(''a'', PyFloat (Fin 10)), (''b'', PyFloat (Fin 4))]
       [''a'' \<mapsto> PyFloat (Fin 0)] (Fin 0) (Fin 10)
     = Inr [''a'' \<mapsto> Fin 10, ''b'' \<mapsto> Fin 4]"
  unfolding compute_hotness_scores_def Let_def decay_10 by (simp add: run_simps)

lemma run_future_timestamp:
  "compute_hotness_scores exact [(''a'', PyFloat (Fin 7))] [''a'' \<mapsto> PyFloat (Fin 20)]
       (Fin 10) (Fin 10)
     = Inr [''a'' \<mapsto> Fin 7]"
  unfolding compute_hotness_scores_def Let_def decay_10 by (simp add: run_simps)

lemma run_same_instant:
  "compute_hotness_scores exact [(''a'', PyFloat (Fin 7))] [''a'' \<mapsto> PyFloat (Fin 10)]
       (Fin 10) (Fin 10)
     = Inr [''a'' \<mapsto> Fin 7]"
  unfolding compute_hotness_scores_def Let_def decay_10 by (simp add: run_simps)

lemma run_negative_half_life:
  "compute_hotness_scores exact [(''a'', PyFloat (Fin 10)), (''b'', PyFloat (Fin 4))]
       [''a'' \<mapsto> PyFloat (Fin 0)] (Fin 10) (Fin (- 10))
     = Inr [''a'' \<mapsto> Fin 20, ''b'' \<mapsto> Fin 4]"
  unfolding compute_hotness_scores_def Let_def decay_minus_10 by (simp add: run_simps)

lemma run_zero_half_life:
  "compute_hotness_scores exact [(''a'', PyFloat (Fin 10)), (''b'', PyFloat (Fin 4))]
       [''a'' \<mapsto> PyFloat (Fin 0)] (Fin 10) (Fin 0)
     = Inr [''a'' \<mapsto> Fin 0, ''b'' \<mapsto> NaN]"
  unfolding compute_hotness_scores_def Let_def decay_zero by (simp add: run_simps)

lemma run_zero_half_life_untimed:
  "compute_hotness_scores exact [(''a'', PyFloat (Fin 1))] Map.empty (Fin 5) (Fin 0)
     = Inr [''a'' \<mapsto> NaN]"
  unfolding compute_hotness_scores_def Let_def decay_zero by (simp add: run_simps)

lemma run_negative_count_now:
  "compute_hotness_scores exact [(''a'', PyFloat (Fin (- 1)))] [''a'' \<mapsto> PyFloat (Fin 0)]
       (Fin 0) (Fin 1)
     = Inr [''a'' \<mapsto> Fin (- 1)]"
  unfolding compute_hotness_scores_def Let_def decay_1 by (simp add: run_simps)

lemma run_negative_count_later:
  "compute_hotness_scores exact [(''a'', PyFloat (Fin (- 1)))] [''a'' \<mapsto> PyFloat (Fin 0)]
       (Fin 1) (Fin 1)
     = Inr [''a'' \<mapsto> Fin (- (1 / 2))]"
  unfolding compute_hotness_scores_def Let_def decay_1 by (simp add: run_simps)

lemma run_tiny_untimed:
  "compute_hotness_scores exact [(''a'', PyFloat (Fin 7))] Map.empty (Fin 5) (Fin denorm_min)
     = Inr [''a'' \<mapsto> NaN]"
  unfolding compute_hotness_scores_def Let_def decay_tiny by (simp add: run_simps)

lemma run_tiny_same_instant:
  "compute_hotness_scores exact [(''a'', PyFloat (Fin 7)), (''b'', PyFloat (Fin 4))]
       [''a'' \<mapsto> PyFloat (Fin 5)] (Fin 5) (Fin denorm_min)
     = Inr [''a'' \<mapsto> NaN, ''b'' \<mapsto> NaN]"
  unfolding compute_hotness_scores_def Let_def decay_tiny by (simp add: run_simps)

lemma run_tiny_future_timestamp:
  "compute_hotness_scores exact [(''a'', PyFloat (Fin 7))] [''a'' \<mapsto> PyFloat (Fin 20)]
       (Fin 10) (Fin denorm_min)
     = Inr [''a'' \<mapsto> NaN]"
  unfolding compute_hotness_scores_def Let_def decay_tiny by (simp add: run_simps)

lemma run_tiny_half_life_elapsed:
  "compute_hotness_scores exact [(''a'', PyFloat (Fin 10))] [''a'' \<mapsto> PyFloat (Fin 0)]
       (Fin denorm_min) (Fin denorm_min)
     = Inr [''a'' \<mapsto> Fin 0]"
  unfolding compute_hotness_scores_def Let_def decay_tiny by (simp add: run_simps)

section \<open>The claims\<close>

text \<open>
  C1. Whenever \<open>compute_hotness_scores\<close> returns a mapping, its key set is exactly the
  key set of \<open>access_counts\<close>: every key of \<open>access_counts\<close> is scored, and a key that is
  only in \<open>last_access_times\<close> is not.
\<close>

theorem C1_keys_exact:
  "compute_hotness_scores p access_counts last_access_times current_time half_life = Inr scores
   \<Longrightarrow> dom scores = fst ` set access_counts"
  using score_loop_dom [of p access_counts last_access_times current_time
      "d_div p (Fin (M_LN2 p)) half_life" Map.empty scores]
  by (simp add: compute_hotness_scores_def)

theorem C1_keys_exact_witness:
  "compute_hotness_scores exact [(''a'', PyInt 10), (''b'', PyInt 4)]
       [''a'' \<mapsto> PyInt 0, ''z'' \<mapsto> PyFloat (Fin 3)] (Fin 10) (Fin 10)
     = Inr [''a'' \<mapsto> Fin 5, ''b'' \<mapsto> Fin 4]
   \<and> dom [''a'' \<mapsto> Fin 5, ''b'' \<mapsto> Fin 4] = fst ` set [(''a'', PyInt 10), (''b'', PyInt 4)]"
  using C1_keys_exact [OF run_example_ints] run_example_ints by (rule conjI [rotated])

text \<open>
  C2, as stated: for \<open>half_life > 0\<close> the score of a key is the real number
  \<open>count * exp (- (ln 2 / half_life) * max 0 (current_time - last_time))\<close>. The quotient
  \<open>ln 2 / half_life\<close> overflows for a half-life below about \<open>3.86e-309\<close>: with the smallest
  positive double as half-life and a key without timestamp, the decay constant is
  \<open>+\<infinity>\<close>, the exponent \<open>-\<infinity> * 0\<close> is NaN and so is the score, where the formula gives
  the count.
\<close>

theorem C2_score_formula_counterexample:
  "compute_hotness_scores exact [(''a'', PyFloat (Fin 7))] Map.empty (Fin 5) (Fin denorm_min)
     = Inr [''a'' \<mapsto> NaN]
   \<and> d_less (Fin 0) (Fin denorm_min)
   \<and> NaN \<noteq> Fin (7 * exp (- (ln 2 / denorm_min) * max 0 (5 - 5)))"
  using run_tiny_untimed by (simp add: d_less_def denorm_min_pos)

text \<open>
  C2, amended. For a key \<open>k\<close> of \<open>access_counts\<close> whose value converts to the double \<open>c\<close>, and
  for \<open>half_life > 0\<close>, the score stored for \<open>k\<close> is the formula of the specification
  evaluated in double arithmetic, \<open>spec_score\<close>, at \<open>c\<close> and at \<open>last_time\<close>, which is
  \<open>current_time\<close> when \<open>k\<close> has no entry in \<open>last_access_times\<close> and the double its entry
  converts to otherwise; provided \<open>current_time - last_time\<close> is not NaN.
\<close>

theorem C2_score_formula:
  assumes "compute_hotness_scores p access_counts last_access_times current_time half_life
             = Inr scores"
    and "distinct (map fst access_counts)"
    and "(k, v) \<in> set access_counts"
    and "cast_double p v = Inr c"
    and "d_less (Fin 0) half_life"
    and "last_access_times k = None \<and> last_time = current_time
         \<or> (\<exists>tv. last_access_times k = Some tv \<and> cast_double p tv = Inr last_time)"
    and "d_sub p current_time last_time \<noteq> NaN"
  shows "scores k = Some (spec_score p c half_life current_time last_time)"
  using compute_score [OF assms(1-4) assms(6)] decayed_is_spec_score [OF assms(7)] by simp

theorem C2_score_formula_witness:
  "[''a'' \<mapsto> Fin 5, ''b'' \<mapsto> Fin 4] ''a''
     = Some (spec_score exact (Fin 10) (Fin 10) (Fin 10) (Fin 0))
   \<and> [''a'' \<mapsto> Fin 5, ''b'' \<mapsto> Fin 4] ''b''
     = Some (spec_score exact (Fin 4) (Fin 10) (Fin 10) (Fin 10))"
proof -
  let ?ac = "[(''a'', PyFloat (Fin 10)), (''b'', PyFloat (Fin 4))]"
  have d: "distinct (map fst ?ac)" by simp
  have h: "d_less (Fin 0) (Fin 10)" by (simp add: d_less_def)
  have a: "[''a'' \<mapsto> Fin 5, ''b'' \<mapsto> Fin 4] ''a''
      = Some (spec_score exact (Fin 10) (Fin 10) (Fin 10) (Fin 0))"
    by (rule C2_score_formula [OF run_example d _ _ h, where v = "PyFloat (Fin 10)"])
      (simp_all add: d_sub_def exact_def exact_round_numeral)
  have b: "[''a'' \<mapsto> Fin 5, ''b'' \<mapsto> Fin 4] ''b''
      = Some (spec_score exact (Fin 4) (Fin 10) (Fin 10) (Fin 10))"
    by (rule C2_score_formula [OF run_example d _ _ h, where v = "PyFloat (Fin 4)"])
      (simp_all add: d_sub_def)
  from a b show ?thesis ..
qed

text \<open>
  C3, as stated: a zero or negative \<open>half_life\<close> makes the function fail with an
  invalid-argument error and emit no score mapping. The function has no such check:
  with \<open>half_life = -10\<close> the example of the specification returns a mapping in which the
  score of \<open>a\<close> has doubled, and with \<open>half_life = 0\<close> it returns a mapping too.
\<close>

theorem C3_invalid_argument_counterexample:
  "compute_hotness_scores exact [(''a'', PyFloat (Fin 10)), (''b'', PyFloat (Fin 4))]
       [''a'' \<mapsto> PyFloat (Fin 0)] (Fin 10) (Fin (- 10))
     = Inr [''a'' \<mapsto> Fin 20, ''b'' \<mapsto> Fin 4]
   \<and> compute_hotness_scores exact [(''a'', PyFloat (Fin 10)), (''b'', PyFloat (Fin 4))]
       [''a'' \<mapsto> PyFloat (Fin 0)] (Fin 10) (Fin 0)
     = Inr [''a'' \<mapsto> Fin 0, ''b'' \<mapsto> NaN]"
  using run_negative_half_life run_zero_half_life by (rule conjI)

text \<open>
  C3, amended. \<open>half_life\<close> is not validated: when it is zero or negative and every
  dictionary value the loop reads converts to \<open>double\<close>, the function raises nothing and
  returns a mapping that scores exactly the keys of \<open>access_counts\<close>.
\<close>

theorem C3_half_life_not_validated:
  assumes "d_le half_life (Fin 0)"
    and "\<forall>(k, v) \<in> set access_counts. (\<exists>c. cast_double p v = Inr c)
           \<and> (\<forall>tv. last_access_times k = Some tv \<longrightarrow> (\<exists>t. cast_double p tv = Inr t))"
  shows "\<exists>scores. compute_hotness_scores p access_counts last_access_times current_time
                     half_life = Inr scores
                 \<and> dom scores = fst ` set access_counts"
proof -
  from score_loop_returns [OF assms(2)] obtain scores where
    run: "score_loop p access_counts last_access_times current_time
            (d_div p (Fin (M_LN2 p)) half_life) Map.empty = Inr scores"
    by blast
  from score_loop_dom [OF run] have "dom scores = fst ` set access_counts" by simp
  moreover from run
  have "compute_hotness_scores p access_counts last_access_times current_time half_life
          = Inr scores"
    by (simp add: compute_hotness_scores_def)
  ultimately show ?thesis by blast
qed

theorem C3_half_life_not_validated_witness:
  "d_le (Fin (- 10)) (Fin 0)
   \<and> (\<exists>scores. compute_hotness_scores exact [(''a'', PyFloat (Fin 10)), (''b'', PyFloat (Fin 4))]
                    [''a'' \<mapsto> PyFloat (Fin 0)] (Fin 10) (Fin (- 10)) = Inr scores
                \<and> dom scores = fst ` set [(''a'', PyFloat (Fin 10)), (''b'', PyFloat (Fin 4))])"
proof -
  have h: "d_le (Fin (- 10)) (Fin 0)" by (simp add: d_le_def)
  have v: "\<forall>(k, v) \<in> set [(''a'', PyFloat (Fin 10)), (''b'', PyFloat (Fin 4))].
             (\<exists>c. cast_double exact v = Inr c)
             \<and> (\<forall>tv. [''a'' \<mapsto> PyFloat (Fin 0)] k = Some tv \<longrightarrow> (\<exists>t. cast_double exact tv = Inr t))"
    by simp
  from h C3_half_life_not_validated [OF h v, of "Fin 10"] show ?thesis by (rule conjI)
qed

text \<open>
  C4, as stated: for \<open>half_life > 0\<close>, a key without timestamp, or with a timestamp equal
  to \<open>current_time\<close>, scores its count. With the smallest positive double as half-life
  the decay constant overflows to \<open>+\<infinity>\<close>, and both kinds of key score \<open>-\<infinity> * 0\<close>, NaN.
\<close>

theorem C4_zero_decay_counterexample:
  "compute_hotness_scores exact [(''a'', PyFloat (Fin 7)), (''b'', PyFloat (Fin 4))]
       [''a'' \<mapsto> PyFloat (Fin 5)] (Fin 5) (Fin denorm_min)
     = Inr [''a'' \<mapsto> NaN, ''b'' \<mapsto> NaN]
   \<and> d_less (Fin 0) (Fin denorm_min) \<and> d_eq (Fin 5) (Fin 5) \<and> NaN \<noteq> Fin 7 \<and> NaN \<noteq> Fin 4"
  using run_tiny_same_instant by (simp add: d_less_def d_eq_def denorm_min_pos)

text \<open>
  C4, amended. For a key \<open>k\<close> of \<open>access_counts\<close> whose value converts to a double \<open>c\<close> other
  than NaN, for \<open>half_life > 0\<close> with a finite decay constant \<open>M_LN2 / half_life\<close> (the
  quotient does not overflow) and for a finite \<open>current_time\<close>: when \<open>k\<close> has no entry in
  \<open>last_access_times\<close>, or its entry equals \<open>current_time\<close>, the score stored for \<open>k\<close> is \<open>c\<close>
  itself.
\<close>

theorem C4_zero_decay:
  assumes "compute_hotness_scores p access_counts last_access_times current_time half_life
             = Inr scores"
    and "distinct (map fst access_counts)"
    and "(k, v) \<in> set access_counts"
    and "cast_double p v = Inr c"
    and "is_double p c"
    and "c \<noteq> NaN"
    and "d_less (Fin 0) half_life"
    and "is_finite (d_div p (Fin (M_LN2 p)) half_life)"
    and "is_finite current_time"
    and "last_access_times k = None
         \<or> (\<exists>tv t. last_access_times k = Some tv \<and> cast_double p tv = Inr t
                \<and> d_eq t current_time)"
  shows "scores k = Some c"
proof -
  from assms(10) obtain lt where
    lt: "last_access_times k = None \<and> lt = current_time
         \<or> (\<exists>tv. last_access_times k = Some tv \<and> cast_double p tv = Inr lt)"
    and eq: "lt = current_time \<or> d_eq lt current_time" by blast
  from eq have "is_zero (clamped_delta p current_time lt)"
  proof
    assume "lt = current_time"
    with assms(9) show ?thesis by (simp add: clamped_delta_same is_zero_def)
  next
    assume "d_eq lt current_time"
    with assms(9) show ?thesis by (rule clamped_delta_eq)
  qed
  with assms(8,5)
  have "decayed p c (d_div p (Fin (M_LN2 p)) half_life) (clamped_delta p current_time lt) = c"
    by (simp add: decayed_zero_delta)
  with compute_score [OF assms(1-4) lt] show ?thesis by simp
qed

theorem C4_zero_decay_witness:
  "[''a'' \<mapsto> Fin 5, ''b'' \<mapsto> Fin 4] ''b'' = Some (Fin 4)
   \<and> [''a'' \<mapsto> Fin 7] ''a'' = Some (Fin 7)"
proof -
  have h: "d_less (Fin 0) (Fin 10)" by (simp add: d_less_def)
  have f: "is_finite (d_div exact (Fin (M_LN2 exact)) (Fin 10))" by (simp add: decay_10)
  have ct: "is_finite (Fin 10)" by simp
  have d4: "is_double exact (Fin 4)" and d7: "is_double exact (Fin 7)"
    by (simp_all add: exact_def exact_round_numeral)
  have n4: "Fin 4 \<noteq> NaN" and n7: "Fin 7 \<noteq> NaN" by simp_all
  have c4: "cast_double exact (PyFloat (Fin 4)) = Inr (Fin 4)"
    and c7: "cast_double exact (PyFloat (Fin 7)) = Inr (Fin 7)" by simp_all
  have "[''a'' \<mapsto> Fin 5, ''b'' \<mapsto> Fin 4] ''b'' = Some (Fin 4)"
    by (rule C4_zero_decay [OF run_example _ _ c4 d4 n4 h f ct]) simp_all
  moreover have "[''a'' \<mapsto> Fin 7] ''a'' = Some (Fin 7)"
    by (rule C4_zero_decay [OF run_same_instant _ _ c7 d7 n7 h f ct])
      (simp_all add: d_eq_def)
  ultimately show ?thesis ..
qed

text \<open>
  C5, as stated: for \<open>half_life > 0\<close>, a key whose timestamp is later than \<open>current_time\<close>
  scores its count. With the smallest positive double as half-life the time delta is
  clamped to zero, but the decay constant is \<open>+\<infinity>\<close> and the score \<open>-\<infinity> * 0\<close> is NaN.
\<close>

theorem C5_negative_delta_counterexample:
  "compute_hotness_scores exact [(''a'', PyFloat (Fin 7))] [''a'' \<mapsto> PyFloat (Fin 20)]
       (Fin 10) (Fin denorm_min)
     = Inr [''a'' \<mapsto> NaN]
   \<and> d_less (Fin 0) (Fin denorm_min) \<and> d_less (Fin 10) (Fin 20) \<and> NaN \<noteq> Fin 7"
  using run_tiny_future_timestamp by (simp add: d_less_def denorm_min_pos)

text \<open>
  C5, amended. For a key \<open>k\<close> of \<open>access_counts\<close> whose value converts to a double \<open>c\<close> other
  than NaN and whose entry in \<open>last_access_times\<close> is later than \<open>current_time\<close>, and for
  \<open>half_life > 0\<close> with a finite decay constant \<open>M_LN2 / half_life\<close>, the score stored for
  \<open>k\<close> is \<open>c\<close>: the negative time delta is clamped to zero. Rounding is monotone.
\<close>

theorem C5_negative_delta_clamped:
  assumes "compute_hotness_scores p access_counts last_access_times current_time half_life
             = Inr scores"
    and "distinct (map fst access_counts)"
    and "(k, v) \<in> set access_counts"
    and "cast_double p v = Inr c"
    and "is_double p c"
    and "c \<noteq> NaN"
    and "monotone_rounding p"
    and "d_less (Fin 0) half_life"
    and "is_finite (d_div p (Fin (M_LN2 p)) half_life)"
    and "last_access_times k = Some tv"
    and "cast_double p tv = Inr t"
    and "d_less current_time t"
  shows "scores k = Some c"
proof -
  from assms(10,11)
  have lt: "last_access_times k = None \<and> t = current_time
         \<or> (\<exists>tv. last_access_times k = Some tv \<and> cast_double p tv = Inr t)" by blast
  from assms(7,12) have "is_zero (clamped_delta p current_time t)"
    by (rule clamped_delta_less)
  with assms(9,5)
  have "decayed p c (d_div p (Fin (M_LN2 p)) half_life) (clamped_delta p current_time t) = c"
    by (simp add: decayed_zero_delta)
  with compute_score [OF assms(1-4) lt] show ?thesis by simp
qed

theorem C5_negative_delta_clamped_witness:
  "d_less (Fin 10) (Fin 20) \<and> [''a'' \<mapsto> Fin 7] ''a'' = Some (Fin 7)"
proof -
  have lt: "d_less (Fin 10) (Fin 20)" by (simp add: d_less_def)
  have h: "d_less (Fin 0) (Fin 10)" by (simp add: d_less_def)
  have f: "is_finite (d_div exact (Fin (M_LN2 exact)) (Fin 10))" by (simp add: decay_10)
  have d7: "is_double exact (Fin 7)" by (simp add: exact_def exact_round_numeral)
  have n7: "Fin 7 \<noteq> NaN" by simp
  have c7: "cast_double exact (PyFloat (Fin 7)) = Inr (Fin 7)" by simp
  have t: "[''a'' \<mapsto> PyFloat (Fin 20)] ''a'' = Some (PyFloat (Fin 20))" by simp
  have ct: "cast_double exact (PyFloat (Fin 20)) = Inr (Fin 20)" by simp
  have "[''a'' \<mapsto> Fin 7] ''a'' = Some (Fin 7)"
    by (rule C5_negative_delta_clamped [OF run_future_timestamp _ _ c7 d7 n7
          exact_monotone_rounding h f t ct lt]) simp_all
  with lt show ?thesis ..
qed

text \<open>
  C6, as stated: non-negative counts give non-negative scores, for all inputs. With
  \<open>half_life = 0\<close> the decay constant is \<open>+\<infinity>\<close>, and a key whose time delta is zero gets
  \<open>-\<infinity> * 0\<close>, that is NaN, which is not \<open>\<ge> 0\<close>.
\<close>

theorem C6_nonnegative_counterexample:
  "compute_hotness_scores exact [(''a'', PyFloat (Fin 1))] Map.empty (Fin 5) (Fin 0)
     = Inr [''a'' \<mapsto> NaN]
   \<and> d_le (Fin 0) (Fin 1) \<and> \<not> d_le (Fin 0) NaN"
  using run_zero_half_life_untimed by (simp add: d_le_def)

text \<open>
  C6, amended. For \<open>half_life > 0\<close> with a finite, positive decay constant
  \<open>M_LN2 / half_life\<close>, a finite \<open>current_time\<close>, timestamps other than NaN and counts that
  are finite and not negative, every score of the returned mapping is non-negative.
  Rounding is monotone and \<open>std::exp\<close> of a negative argument lies between 0 and 1.
\<close>

theorem C6_scores_nonnegative:
  assumes "compute_hotness_scores p access_counts last_access_times current_time half_life
             = Inr scores"
    and "monotone_rounding p"
    and "exp_in_unit p"
    and "d_less (Fin 0) half_life"
    and "d_div p (Fin (M_LN2 p)) half_life = Fin d"
    and "0 < d"
    and "is_finite current_time"
    and "\<forall>(k, v) \<in> set access_counts. \<forall>c. cast_double p v = Inr c \<longrightarrow> is_finite c \<and> 0 \<le> val c"
    and "\<forall>(k, v) \<in> set access_counts. \<forall>tv t.
           last_access_times k = Some tv \<longrightarrow> cast_double p tv = Inr t \<longrightarrow> t \<noteq> NaN"
    and "scores k = Some s"
  shows "d_le (Fin 0) s"
proof -
  from assms(1) have "score_loop p access_counts last_access_times current_time
      (Fin d) Map.empty = Inr scores"
    unfolding compute_hotness_scores_def Let_def assms(5) .
  from score_loop_values [OF this assms(10)] obtain v where
    v: "(k, v) \<in> set access_counts"
    and s: "hotness_score p v (last_access_times k) current_time (Fin d) = Inr s"
    by auto
  from s obtain c lt where c: "cast_double p v = Inr c"
    and lt: "last_access_times k = None \<and> lt = current_time
         \<or> (\<exists>tv. last_access_times k = Some tv \<and> cast_double p tv = Inr lt)"
    and sv: "s = decayed p c (Fin d) (clamped_delta p current_time lt)"
    unfolding hotness_score_Inr by blast
  from v c assms(8) have fc: "is_finite c" and pc: "0 \<le> val c" by blast+
  from assms(7) have "current_time \<noteq> NaN" by auto
  with lt v assms(9) have "lt \<noteq> NaN" by blast
  with assms(2,7) have "d_sub p current_time lt \<noteq> NaN" by (rule d_sub_not_NaN)
  then have "d_le (Fin 0) (clamped_delta p current_time lt)" by (rule clamped_delta_nonneg)
  from decay_factor_unit [OF assms(2,3,6) this] obtain e where
    e: "d_exp p (d_mul p (d_neg (Fin d)) (clamped_delta p current_time lt)) = Fin e"
    and "0 \<le> e" by blast
  from count_times_unit_nonneg [OF assms(2) fc pc \<open>0 \<le> e\<close>] sv e
  show ?thesis by (simp add: decayed_def)
qed

theorem C6_scores_nonnegative_witness:
  "d_less (Fin 0) (Fin 10) \<and> 0 < ln 2 / (10::real)
   \<and> [''a'' \<mapsto> Fin 5, ''b'' \<mapsto> Fin 4] ''a'' = Some (Fin 5)
   \<and> d_le (Fin 0) (Fin 5)"
proof -
  have h: "d_less (Fin 0) (Fin 10)" by (simp add: d_less_def)
  have d: "0 < ln 2 / (10::real)" by (simp add: ln2_facts)
  have ct: "is_finite (Fin 10)" by simp
  have v: "\<forall>(k, v) \<in> set [(''a'', PyFloat (Fin 10)), (''b'', PyFloat (Fin 4))].
             \<forall>c. cast_double exact v = Inr c \<longrightarrow> is_finite c \<and> 0 \<le> val c"
    by auto
  have t: "\<forall>(k, v) \<in> set [(''a'', PyFloat (Fin 10)), (''b'', PyFloat (Fin 4))]. \<forall>tv t.
             [''a'' \<mapsto> PyFloat (Fin 0)] k = Some tv \<longrightarrow> cast_double exact tv = Inr t \<longrightarrow> t \<noteq> NaN"
    by auto
  have a: "[''a'' \<mapsto> Fin 5, ''b'' \<mapsto> Fin 4] ''a'' = Some (Fin 5)" by simp
  from C6_scores_nonnegative [OF run_example exact_monotone_rounding exact_exp_in_unit
      h decay_10 d ct v t a] h d a
  show ?thesis by blast
qed

text \<open>
  C8, as stated: for a fixed count and a fixed \<open>half_life > 0\<close>, a larger time delta never
  gives a larger score. The function accepts a negative count, and then the score grows
  towards zero: with count \<open>-1\<close> and half-life \<open>1\<close>, the delta \<open>0\<close> gives \<open>-1\<close> and the delta
  \<open>1\<close> gives \<open>-1/2\<close>.
\<close>

theorem C8_monotonic_counterexample:
  "compute_hotness_scores exact [(''a'', PyFloat (Fin (- 1)))] [''a'' \<mapsto> PyFloat (Fin 0)]
       (Fin 0) (Fin 1)
     = Inr [''a'' \<mapsto> Fin (- 1)]
   \<and> compute_hotness_scores exact [(''a'', PyFloat (Fin (- 1)))] [''a'' \<mapsto> PyFloat (Fin 0)]
       (Fin 1) (Fin 1)
     = Inr [''a'' \<mapsto> Fin (- (1 / 2))]
   \<and> d_le (d_sub exact (Fin 0) (Fin 0)) (d_sub exact (Fin 1) (Fin 0))
   \<and> \<not> d_le (Fin (- (1 / 2))) (Fin (- 1))"
  using run_negative_count_now run_negative_count_later
  by (simp add: d_le_def d_sub_def exact_def exact_round_numeral)

text \<open>
  C8, amended. For a fixed count that is finite and not negative and a fixed
  \<open>half_life > 0\<close> with a finite, positive decay constant \<open>M_LN2 / half_life\<close>, the score
  does not increase with the time delta: of two calls that differ in \<open>current_time\<close> and
  in the timestamp of \<open>k\<close>, the one whose \<open>current_time - last_time\<close> (line 43) is
  larger stores a score that is less than or equal to the other's. Rounding is
  monotone; \<open>std::exp\<close> is monotone on the negative arguments, where it lies between 0
  and 1.
\<close>

theorem C8_monotonic_decay:
  assumes "compute_hotness_scores p access_counts last_access_times1 current_time1 half_life
             = Inr scores1"
    and "compute_hotness_scores p access_counts last_access_times2 current_time2 half_life
             = Inr scores2"
    and "distinct (map fst access_counts)"
    and "(k, v) \<in> set access_counts"
    and "cast_double p v = Inr c"
    and "is_finite c"
    and "0 \<le> val c"
    and "monotone_rounding p"
    and "exp_in_unit p"
    and "exp_monotone p"
    and "d_less (Fin 0) half_life"
    and "d_div p (Fin (M_LN2 p)) half_life = Fin d"
    and "0 < d"
    and "last_access_times1 k = Some tv1"
    and "cast_double p tv1 = Inr t1"
    and "last_access_times2 k = Some tv2"
    and "cast_double p tv2 = Inr t2"
    and "d_le (d_sub p current_time1 t1) (d_sub p current_time2 t2)"
  shows "\<exists>s1 s2. scores1 k = Some s1 \<and> scores2 k = Some s2 \<and> d_le s2 s1"
proof -
  let ?dt1 = "clamped_delta p current_time1 t1"
  let ?dt2 = "clamped_delta p current_time2 t2"
  from assms(14,15)
  have lt1: "last_access_times1 k = None \<and> t1 = current_time1
         \<or> (\<exists>tv. last_access_times1 k = Some tv \<and> cast_double p tv = Inr t1)" by blast
  from assms(16,17)
  have lt2: "last_access_times2 k = None \<and> t2 = current_time2
         \<or> (\<exists>tv. last_access_times2 k = Some tv \<and> cast_double p tv = Inr t2)" by blast
  from compute_score [OF assms(1) assms(3-5) lt1]
  have k1: "scores1 k = Some (decayed p c (Fin d) ?dt1)" unfolding assms(12) .
  from compute_score [OF assms(2) assms(3-5) lt2]
  have k2: "scores2 k = Some (decayed p c (Fin d) ?dt2)" unfolding assms(12) .
  from assms(18) have "d_sub p current_time1 t1 \<noteq> NaN" by (auto simp: d_le_def)
  then have pos: "d_le (Fin 0) ?dt1" by (rule clamped_delta_nonneg)
  from assms(18) have le: "d_le ?dt1 ?dt2" by (rule clamped_delta_mono)
  from neg_product_antimono [OF assms(8) assms(13) pos le]
  have r: "d_le (d_mul p (d_neg (Fin d)) ?dt2) (d_mul p (d_neg (Fin d)) ?dt1)" .
  from neg_product_nonpos [OF assms(8) assms(13) pos]
  have "d_le (d_mul p (d_neg (Fin d)) ?dt1) (Fin 0)" .
  from d_exp_mono_nonpos [OF assms(9,10) r this] obtain e1 e2 where
    e1: "d_exp p (d_mul p (d_neg (Fin d)) ?dt1) = Fin e1"
    and e2: "d_exp p (d_mul p (d_neg (Fin d)) ?dt2) = Fin e2"
    and "0 \<le> e2" "e2 \<le> e1" by blast
  from count_times_mono [OF assms(8) assms(6,7) \<open>0 \<le> e2\<close> \<open>e2 \<le> e1\<close>] e1 e2
  have "d_le (decayed p c (Fin d) ?dt2) (decayed p c (Fin d) ?dt1)"
    by (simp add: decayed_def)
  with k1 k2 show ?thesis by blast
qed

theorem C8_monotonic_decay_witness:
  "d_le (d_sub exact (Fin 0) (Fin 0)) (d_sub exact (Fin 10) (Fin 0))
   \<and> (\<exists>s1 s2. [''a'' \<mapsto> Fin 10, ''b'' \<mapsto> Fin 4] ''a'' = Some s1
              \<and> [''a'' \<mapsto> Fin 5, ''b'' \<mapsto> Fin 4] ''a'' = Some s2 \<and> d_le s2 s1)"
proof -
  let ?ac = "[(''a'', PyFloat (Fin 10)), (''b'', PyFloat (Fin 4))]"
  have le: "d_le (d_sub exact (Fin 0) (Fin 0)) (d_sub exact (Fin 10) (Fin 0))"
    by (simp add: d_le_def d_sub_def exact_def exact_round_numeral)
  have dist: "distinct (map fst ?ac)" by simp
  have a: "(''a'', PyFloat (Fin 10)) \<in> set ?ac" by simp
  have c: "cast_double exact (PyFloat (Fin 10)) = Inr (Fin 10)" by simp
  have fc: "is_finite (Fin 10)" and pc: "0 \<le> val (Fin 10)" by simp_all
  have h: "d_less (Fin 0) (Fin 10)" by (simp add: d_less_def)
  have d: "0 < ln 2 / (10::real)" by (simp add: ln2_facts)
  have t: "[''a'' \<mapsto> PyFloat (Fin 0)] ''a'' = Some (PyFloat (Fin 0))" by simp
  have ct: "cast_double exact (PyFloat (Fin 0)) = Inr (Fin 0)" by simp
  from le C8_monotonic_decay [OF run_example_earlier run_example dist a c fc pc
      exact_monotone_rounding exact_exp_in_unit exact_exp_monotone h decay_10 d t ct t ct le]
  show ?thesis by (rule conjI)
qed

text \<open>
  C10, as stated: for a count \<open>c \<ge> 0\<close> and \<open>half_life > 0\<close> the score never exceeds the
  count. With the smallest positive double as half-life the score of a key without
  timestamp is NaN, which is not \<open>\<le> c\<close>.
\<close>

theorem C10_upper_bound_counterexample:
  "compute_hotness_scores exact [(''a'', PyFloat (Fin 7))] Map.empty (Fin 5) (Fin denorm_min)
     = Inr [''a'' \<mapsto> NaN]
   \<and> d_less (Fin 0) (Fin denorm_min) \<and> d_le (Fin 0) (Fin 7) \<and> \<not> d_le NaN (Fin 7)"
  using run_tiny_untimed by (simp add: d_less_def d_le_def denorm_min_pos)

text \<open>
  C10, amended. For a key \<open>k\<close> of \<open>access_counts\<close> whose value converts to a double \<open>c\<close> that
  is finite and not negative, for \<open>half_life > 0\<close> with a finite, positive decay constant
  \<open>M_LN2 / half_life\<close>, and when \<open>current_time - last_time\<close> is not NaN, the score stored
  for \<open>k\<close> is at most \<open>c\<close>. Rounding is monotone and \<open>std::exp\<close> of a negative argument lies
  between 0 and 1.
\<close>

theorem C10_score_at_most_count:
  assumes "compute_hotness_scores p access_counts last_access_times current_time half_life
             = Inr scores"
    and "distinct (map fst access_counts)"
    and "(k, v) \<in> set access_counts"
    and "cast_double p v = Inr c"
    and "is_double p c"
    and "is_finite c"
    and "0 \<le> val c"
    and "monotone_rounding p"
    and "exp_in_unit p"
    and "d_less (Fin 0) half_life"
    and "d_div p (Fin (M_LN2 p)) half_life = Fin d"
    and "0 < d"
    and "last_access_times k = None \<and> last_time = current_time
         \<or> (\<exists>tv. last_access_times k = Some tv \<and> cast_double p tv = Inr last_time)"
    and "d_sub p current_time last_time \<noteq> NaN"
  shows "\<exists>s. scores k = Some s \<and> d_le s c"
proof -
  from compute_score [OF assms(1-4) assms(13)]
  have k: "scores k = Some (decayed p c (Fin d) (clamped_delta p current_time last_time))"
    unfolding assms(11) .
  from assms(14) have "d_le (Fin 0) (clamped_delta p current_time last_time)"
    by (rule clamped_delta_nonneg)
  from decay_factor_unit [OF assms(8,9,12) this] obtain e where
    e: "d_exp p (d_mul p (d_neg (Fin d)) (clamped_delta p current_time last_time)) = Fin e"
    and "0 \<le> e" "e \<le> 1" by blast
  from count_times_unit_le [OF assms(8) assms(5-7) \<open>0 \<le> e\<close> \<open>e \<le> 1\<close>] e
  have "d_le (decayed p c (Fin d) (clamped_delta p current_time last_time)) c"
    by (simp add: decayed_def)
  with k show ?thesis by blast
qed

theorem C10_score_at_most_count_witness:
  "d_less (Fin 0) (Fin 10) \<and> d_sub exact (Fin 10) (Fin 0) \<noteq> NaN
   \<and> (\<exists>s. [''a'' \<mapsto> Fin 5, ''b'' \<mapsto> Fin 4] ''a'' = Some s \<and> d_le s (Fin 10))"
proof -
  let ?ac = "[(''a'', PyFloat (Fin 10)), (''b'', PyFloat (Fin 4))]"
  have dist: "distinct (map fst ?ac)" by simp
  have a: "(''a'', PyFloat (Fin 10)) \<in> set ?ac" by simp
  have c: "cast_double exact (PyFloat (Fin 10)) = Inr (Fin 10)" by simp
  have dc: "is_double exact (Fin 10)" by (simp add: exact_def exact_round_numeral)
  have fc: "is_finite (Fin 10)" and pc: "0 \<le> val (Fin 10)" by simp_all
  have h: "d_less (Fin 0) (Fin 10)" by (simp add: d_less_def)
  have d: "0 < ln 2 / (10::real)" by (simp add: ln2_facts)
  have t: "[''a'' \<mapsto> PyFloat (Fin 0)] ''a'' = None \<and> Fin 0 = Fin 10
         \<or> (\<exists>tv. [''a'' \<mapsto> PyFloat (Fin 0)] ''a'' = Some tv \<and> cast_double exact tv = Inr (Fin 0))"
    by simp
  have n: "d_sub exact (Fin 10) (Fin 0) \<noteq> NaN"
    by (simp add: d_sub_def exact_def exact_round_numeral)
  from C10_score_at_most_count [OF run_example dist a c dc fc pc exact_monotone_rounding
      exact_exp_in_unit h decay_10 d t n] h n
  show ?thesis by blast
qed

section \<open>One half-life, with rounding\<close>

lemma exp_near_one:
  fixes t :: real
  assumes "\<bar>t\<bar> \<le> 1 / 2"
  shows "\<bar>exp t - 1\<bar> \<le> 2 * \<bar>t\<bar>"
proof (cases "0 \<le> t")
  case True
  with assms have "t \<le> 1" by simp
  with True have "exp t \<le> 1 + t + t\<^sup>2" by (rule exp_bound)
  moreover from True \<open>t \<le> 1\<close> have "t\<^sup>2 \<le> t" by (simp add: power2_eq_square mult_left_le)
  moreover from True have "1 \<le> exp t" by simp
  ultimately show ?thesis using True by linarith
next
  case False
  have lower: "1 + t \<le> exp t" by simp
  from False have upper: "exp t \<le> 1" by simp
  from lower upper False show ?thesis by linarith
qed

lemma ln2_le_three_quarters: "ln (2::real) \<le> 3 / 4"
proof -
  have "(2::real) \<le> 1 + 3 / 4 + (3 / 4)\<^sup>2 / 2" by (simp add: power2_eq_square)
  also have "\<dots> \<le> exp (3 / 4)" by (rule exp_lower_Taylor_quadratic) simp
  finally have "exp (ln 2) \<le> exp (3 / 4 :: real)" by simp
  then show ?thesis by (simp only: exp_le_cancel_iff)
qed

lemma min_normal_facts: "0 < min_normal" "min_normal \<le> 1 / 4"
  by (simp_all add: min_normal_def)

text \<open>A half-life in the normal range has a finite decay constant, accurate to one rounding.\<close>

lemma M_LN2_bounds:
  assumes "accurate_ln2 p"
  shows "1 / 4 \<le> M_LN2 p" "M_LN2 p \<le> 1" "\<bar>M_LN2 p - ln 2\<bar> \<le> 1 / 2 ^ 53"
proof -
  have "ln 2 / 2 ^ 53 \<le> (1::real) / 2 ^ 53" using ln2_bounds(2) by (rule divide_right_mono) simp
  with assms show err: "\<bar>M_LN2 p - ln 2\<bar> \<le> 1 / 2 ^ 53"
    unfolding accurate_ln2_def by (rule order_trans)
  have "(1::real) / 2 ^ 53 \<le> 1 / 4" by simp
  with err have "\<bar>M_LN2 p - ln 2\<bar> \<le> 1 / 4" by (rule order_trans)
  with ln2_bounds(1) ln2_le_three_quarters show "1 / 4 \<le> M_LN2 p" "M_LN2 p \<le> 1"
    by linarith+
qed

lemma decay_constant_normal:
  assumes "accurate_rounding p" and "accurate_ln2 p"
    and "min_normal \<le> h" and "h \<le> 1 / (4 * min_normal)"
  shows "\<exists>d. d_div p (Fin (M_LN2 p)) (Fin h) = Fin d \<and> \<bar>d * h - ln 2\<bar> \<le> 2 / 2 ^ 53"
proof -
  note m = min_normal_facts
  note M = M_LN2_bounds [OF assms(2)]
  from M(1) have Mpos: "0 < M_LN2 p" by simp
  from m(1) assms(3) have hpos: "0 < h" by (rule less_le_trans)
  let ?x = "M_LN2 p / h"
  have "min_normal * h \<le> min_normal * (1 / (4 * min_normal))"
    using assms(4) by (rule mult_left_mono) (simp add: m(1) less_imp_le)
  also have "\<dots> = 1 / 4" using m(1) by simp
  also have "\<dots> \<le> M_LN2 p" by (rule M(1))
  finally have lower: "min_normal \<le> ?x" using hpos by (simp add: pos_le_divide_eq)
  have "M_LN2 p \<le> 2" using M(2) by simp
  also have "\<dots> = 2 / min_normal * min_normal" using m(1) by simp
  also have "\<dots> \<le> 2 / min_normal * h"
    using assms(3) by (rule mult_left_mono) (simp add: m(1) less_imp_le)
  finally have upper: "?x \<le> 2 / min_normal" using hpos by (simp add: pos_divide_le_eq)
  from hpos Mpos have xpos: "0 < ?x" by simp
  then have absx: "\<bar>?x\<bar> = ?x" by (rule abs_of_pos)
  with lower upper have "min_normal \<le> \<bar>?x\<bar>" "\<bar>?x\<bar> \<le> 2 / min_normal" by (simp_all only:)
  with assms(1) obtain d where d: "fp_round p ?x = Fin d" and err: "\<bar>d - ?x\<bar> \<le> \<bar>?x\<bar> / 2 ^ 53"
    unfolding accurate_rounding_def by blast
  from hpos have "d * h - M_LN2 p = (d - ?x) * h" by (simp add: field_simps)
  then have "\<bar>d * h - M_LN2 p\<bar> = \<bar>d - ?x\<bar> * h" using hpos by (simp add: abs_mult)
  also have "\<dots> \<le> \<bar>?x\<bar> / 2 ^ 53 * h"
    using err by (rule mult_right_mono) (simp add: hpos less_imp_le)
  also have "\<dots> = M_LN2 p / 2 ^ 53" unfolding absx using hpos by simp
  also have "\<dots> \<le> 1 / 2 ^ 53" using M(2) by (rule divide_right_mono) simp
  finally have "\<bar>d * h - M_LN2 p\<bar> \<le> 1 / 2 ^ 53" .
  with M(3) have "\<bar>d * h - ln 2\<bar> \<le> 1 / 2 ^ 53 + 1 / 2 ^ 53" by linarith
  then have "\<bar>d * h - ln 2\<bar> \<le> 2 / 2 ^ 53" by simp
  moreover from hpos Mpos d have "d_div p (Fin (M_LN2 p)) (Fin h) = Fin d"
    by (simp add: d_div_def)
  ultimately show ?thesis by blast
qed

text \<open>In particular it is finite and positive, as the bounds on the scores need it.\<close>

lemma decay_constant_positive:
  assumes "accurate_rounding p" and "accurate_ln2 p"
    and "min_normal \<le> h" and "h \<le> 1 / (4 * min_normal)"
  shows "\<exists>d. d_div p (Fin (M_LN2 p)) (Fin h) = Fin d \<and> 0 < d"
proof -
  from decay_constant_normal [OF assms] obtain d where
    d: "d_div p (Fin (M_LN2 p)) (Fin h) = Fin d" and err: "\<bar>d * h - ln 2\<bar> \<le> 2 / 2 ^ 53"
    by blast
  from min_normal_facts(1) assms(3) have hpos: "0 < h" by (rule less_le_trans)
  have "(2::real) / 2 ^ 53 \<le> 1 / 4" by simp
  with err have "\<bar>d * h - ln 2\<bar> \<le> 1 / 4" by (rule order_trans)
  with ln2_bounds(1) have "0 < d * h" by linarith
  with hpos have "0 < d" by (simp add: zero_less_mult_iff)
  with d show ?thesis by blast
qed

text \<open>The exponent \<open>-decay_constant * dt\<close> after one half-life is \<open>- ln 2\<close> up to three roundings.\<close>

lemma exponent_after_half_life:
  assumes "accurate_rounding p" and "0 < h" and "\<bar>d * h - ln 2\<bar> \<le> 2 / 2 ^ 53"
  shows "\<exists>q. d_mul p (d_neg (Fin d)) (Fin h) = Fin q \<and> \<bar>q + ln 2\<bar> \<le> 3 / 2 ^ 53"
proof -
  note m = min_normal_facts
  let ?m = "d * h"
  note m_err = assms(3)
  have "(2::real) / 2 ^ 53 \<le> 1 / 4" by simp
  with m_err have "\<bar>?m - ln 2\<bar> \<le> 1 / 4" by (rule order_trans)
  with ln2_bounds(1) ln2_le_three_quarters have m_lo: "1 / 4 \<le> ?m" and m_hi: "?m \<le> 1"
    by linarith+
  then have mpos: "0 < ?m" by simp
  with assms(2) have dpos: "0 < d" by (simp add: zero_less_mult_iff)
  from m(2) m_lo mpos have lo: "min_normal \<le> \<bar>- d * h\<bar>" by simp
  from m have "1 \<le> 2 / min_normal" by (simp add: pos_le_divide_eq)
  with m_hi mpos have hi: "\<bar>- d * h\<bar> \<le> 2 / min_normal" by simp
  from lo hi obtain q where q: "fp_round p (- d * h) = Fin q"
    and err: "\<bar>q - (- d * h)\<bar> \<le> \<bar>- d * h\<bar> / 2 ^ 53"
    using assms(1) unfolding accurate_rounding_def by blast
  from mpos m_hi have "\<bar>- d * h\<bar> \<le> 1" by simp
  then have "\<bar>- d * h\<bar> / 2 ^ 53 \<le> 1 / 2 ^ 53" by (rule divide_right_mono) simp
  with err have "\<bar>q - (- d * h)\<bar> \<le> 1 / 2 ^ 53" by (rule order_trans)
  then have "\<bar>q + ?m\<bar> \<le> 1 / 2 ^ 53" by simp
  with m_err have "\<bar>q + ln 2\<bar> \<le> 1 / 2 ^ 53 + 2 / 2 ^ 53" by linarith
  then have "\<bar>q + ln 2\<bar> \<le> 3 / 2 ^ 53" by simp
  moreover from dpos mpos assms(2) q have "d_mul p (d_neg (Fin d)) (Fin h) = Fin q"
    by (simp add: d_mul_def)
  ultimately show ?thesis by blast
qed

text \<open>The decay factor after one half-life is \<open>1/2\<close> up to five units of rounding.\<close>

lemma decay_factor_after_half_life:
  assumes "accurate_exp p" and "\<bar>q + ln 2\<bar> \<le> 3 / 2 ^ 53"
  shows "\<exists>e. d_exp p (Fin q) = Fin e \<and> \<bar>e - 1 / 2\<bar> \<le> 5 / 2 ^ 53"
proof -
  let ?t = "q + ln 2"
  have small: "(3::real) / 2 ^ 53 \<le> 1 / 4" by simp
  with assms(2) have "\<bar>?t\<bar> \<le> 1 / 4" by (rule order_trans)
  with ln2_bounds(1) ln2_le_three_quarters have q_lo: "- 1 \<le> q" and q_hi: "q < 0"
    by linarith+
  with assms(1) obtain e where e: "std_exp p q = Fin e" and err: "\<bar>e - exp q\<bar> \<le> exp q / 2 ^ 52"
    unfolding accurate_exp_def by blast
  have "exp q = exp ?t * exp (- ln 2)" by (simp add: exp_add [symmetric])
  then have eq: "exp q = exp ?t / 2" by (simp add: exp_minus)
  from \<open>\<bar>?t\<bar> \<le> 1 / 4\<close> have "\<bar>?t\<bar> \<le> 1 / 2" by simp
  then have "\<bar>exp ?t - 1\<bar> \<le> 2 * \<bar>?t\<bar>" by (rule exp_near_one)
  moreover from assms(2) have "2 * \<bar>?t\<bar> \<le> 6 / 2 ^ 53" by simp
  ultimately have near: "\<bar>exp ?t - 1\<bar> \<le> 6 / 2 ^ 53" by (rule order_trans)
  from q_hi have "exp q \<le> 1" by simp
  then have "exp q / 2 ^ 52 \<le> 1 / 2 ^ 52" by (rule divide_right_mono) simp
  with err have "\<bar>e - exp q\<bar> \<le> 1 / 2 ^ 52" by (rule order_trans)
  then have err': "\<bar>e - exp q\<bar> \<le> 2 / 2 ^ 53" by simp
  from eq near have "\<bar>exp q - 1 / 2\<bar> \<le> 3 / 2 ^ 53" by linarith
  with err' have "\<bar>e - 1 / 2\<bar> \<le> 5 / 2 ^ 53" by linarith
  moreover from q_hi e have "d_exp p (Fin q) = Fin e" by (simp add: d_exp_def)
  ultimately show ?thesis by blast
qed

text \<open>A normal count times that factor is half the count up to \<open>6 * 2\<^sup>-\<^sup>5\<^sup>3\<close> of the count.\<close>

lemma half_count:
  assumes "accurate_rounding p" and "\<bar>e - 1 / 2\<bar> \<le> 5 / 2 ^ 53"
    and "4 * min_normal \<le> \<bar>x\<bar>" and "\<bar>x\<bar> \<le> 1 / min_normal"
  shows "\<exists>s. d_mul p (Fin x) (Fin e) = Fin s \<and> \<bar>s - x / 2\<bar> \<le> 6 / 2 ^ 53 * \<bar>x\<bar>"
proof -
  note m = min_normal_facts
  have small: "(5::real) / 2 ^ 53 \<le> 1 / 4" by simp
  with assms(2) have "\<bar>e - 1 / 2\<bar> \<le> 1 / 4" by (rule order_trans)
  then have e_lo: "1 / 4 \<le> e" and e_hi: "e \<le> 1" by linarith+
  from m(1) assms(3) have xpos: "0 < \<bar>x\<bar>" by linarith
  then have x0: "x \<noteq> 0" by simp
  from e_lo have e0: "e \<noteq> 0" and epos: "0 \<le> e" by simp_all
  have "min_normal = 4 * min_normal * (1 / 4)" by simp
  also have "\<dots> \<le> \<bar>x\<bar> * e" using assms(3) e_lo m(1) by (intro mult_mono) simp_all
  finally have lo: "min_normal \<le> \<bar>x * e\<bar>" using epos by (simp add: abs_mult)
  have "\<bar>x\<bar> * e \<le> \<bar>x\<bar> * 1" using e_hi xpos by (intro mult_left_mono) simp_all
  then have xe: "\<bar>x * e\<bar> \<le> \<bar>x\<bar>" using epos by (simp add: abs_mult)
  also have "\<dots> \<le> 1 / min_normal" by (rule assms(4))
  also have "\<dots> \<le> 2 / min_normal" using m(1) by (simp add: divide_right_mono)
  finally have hi: "\<bar>x * e\<bar> \<le> 2 / min_normal" .
  from lo hi obtain s where s: "fp_round p (x * e) = Fin s"
    and err: "\<bar>s - x * e\<bar> \<le> \<bar>x * e\<bar> / 2 ^ 53"
    using assms(1) unfolding accurate_rounding_def by blast
  from xe have "\<bar>x * e\<bar> / 2 ^ 53 \<le> \<bar>x\<bar> / 2 ^ 53" by (rule divide_right_mono) simp
  with err have err': "\<bar>s - x * e\<bar> \<le> \<bar>x\<bar> / 2 ^ 53" by (rule order_trans)
  have "x * e - x / 2 = x * (e - 1 / 2)" by (simp add: algebra_simps)
  then have "\<bar>x * e - x / 2\<bar> = \<bar>x\<bar> * \<bar>e - 1 / 2\<bar>" by (simp add: abs_mult)
  also have "\<dots> \<le> \<bar>x\<bar> * (5 / 2 ^ 53)" using assms(2) by (intro mult_left_mono) simp_all
  finally have "\<bar>x * e - x / 2\<bar> \<le> 5 / 2 ^ 53 * \<bar>x\<bar>" by simp
  with err' have "\<bar>s - x / 2\<bar> \<le> \<bar>x\<bar> / 2 ^ 53 + 5 / 2 ^ 53 * \<bar>x\<bar>" by linarith
  then have "\<bar>s - x / 2\<bar> \<le> 6 / 2 ^ 53 * \<bar>x\<bar>" by simp
  moreover from x0 e0 s have "d_mul p (Fin x) (Fin e) = Fin s" by (simp add: d_mul_def)
  ultimately show ?thesis by blast
qed

text \<open>
  C9, as stated: for \<open>half_life > 0\<close>, a key last accessed one half-life before
  \<open>current_time\<close> scores its count halved, within a relative error of \<open>10\<^sup>-\<^sup>9\<close>. With the
  smallest positive double as half-life the decay constant overflows to \<open>+\<infinity>\<close>, the
  decay factor is \<open>exp(-\<infinity>) = 0\<close> and the score of the count 10 is 0, not 5.
\<close>

theorem C9_half_life_counterexample:
  "compute_hotness_scores exact [(''a'', PyFloat (Fin 10))] [''a'' \<mapsto> PyFloat (Fin 0)]
       (Fin denorm_min) (Fin denorm_min)
     = Inr [''a'' \<mapsto> Fin 0]
   \<and> d_less (Fin 0) (Fin denorm_min)
   \<and> d_sub exact (Fin denorm_min) (Fin 0) = Fin denorm_min
   \<and> \<not> \<bar>0 - 10 / 2\<bar> \<le> (1 / 10 ^ 9) * \<bar>10 / 2 :: real\<bar>"
  using run_tiny_half_life_elapsed
  by (simp add: d_less_def d_sub_def denorm_min_pos exact_def exact_round_tiny)

text \<open>
  C9, amended. For a key \<open>k\<close> of \<open>access_counts\<close> whose value converts to a finite double
  \<open>x\<close> with \<open>2\<^sup>-\<^sup>1\<^sup>0\<^sup>2\<^sup>0 \<le> |x| \<le> 2\<^sup>1\<^sup>0\<^sup>2\<^sup>2\<close>, for a half-life \<open>h\<close> with
  \<open>2\<^sup>-\<^sup>1\<^sup>0\<^sup>2\<^sup>2 \<le> h \<le> 2\<^sup>1\<^sup>0\<^sup>2\<^sup>0\<close>, and when the time delta \<open>current_time - last_time\<close> of line 43
  is exactly \<open>h\<close>, the score stored for \<open>k\<close> is within a relative error of \<open>10\<^sup>-\<^sup>9\<close> of
  \<open>x / 2\<close>. Rounding has a relative error of at most \<open>2\<^sup>-\<^sup>5\<^sup>3\<close> in the normal range,
  \<open>std::exp\<close> of at most \<open>2\<^sup>-\<^sup>5\<^sup>2\<close> on \<open>[-1, 0)\<close>, and \<open>M_LN2\<close> is \<open>ln 2\<close> rounded.
\<close>

theorem C9_half_life:
  assumes "compute_hotness_scores p access_counts last_access_times current_time half_life
             = Inr scores"
    and "distinct (map fst access_counts)"
    and "(k, v) \<in> set access_counts"
    and "cast_double p v = Inr (Fin x)"
    and "4 * min_normal \<le> \<bar>x\<bar>"
    and "\<bar>x\<bar> \<le> 1 / min_normal"
    and "accurate_rounding p"
    and "accurate_exp p"
    and "accurate_ln2 p"
    and "half_life = Fin h"
    and "min_normal \<le> h"
    and "h \<le> 1 / (4 * min_normal)"
    and "last_access_times k = Some tv"
    and "cast_double p tv = Inr t0"
    and "d_sub p current_time t0 = half_life"
  shows "\<exists>s. scores k = Some (Fin s) \<and> \<bar>s - x / 2\<bar> \<le> (1 / 10 ^ 9) * \<bar>x / 2\<bar>"
proof -
  from min_normal_facts(1) assms(11) have hpos: "0 < h" by (rule less_le_trans)
  from assms(13,14)
  have lt: "last_access_times k = None \<and> t0 = current_time
         \<or> (\<exists>tv. last_access_times k = Some tv \<and> cast_double p tv = Inr t0)" by blast
  from assms(15,10) hpos have dt: "clamped_delta p current_time t0 = Fin h"
    by (simp add: clamped_delta_def d_less_def)
  from compute_score [OF assms(1-4) lt]
  have k: "scores k = Some (decayed p (Fin x) (d_div p (Fin (M_LN2 p)) (Fin h)) (Fin h))"
    unfolding dt assms(10) .
  from decay_constant_normal [OF assms(7,9,11,12)] obtain d where
    d: "d_div p (Fin (M_LN2 p)) (Fin h) = Fin d" and "\<bar>d * h - ln 2\<bar> \<le> 2 / 2 ^ 53" by blast
  from exponent_after_half_life [OF assms(7) hpos this(2)] obtain q where
    q: "d_mul p (d_neg (Fin d)) (Fin h) = Fin q" and "\<bar>q + ln 2\<bar> \<le> 3 / 2 ^ 53" by blast
  from decay_factor_after_half_life [OF assms(8) this(2)] obtain e where
    e: "d_exp p (Fin q) = Fin e" and "\<bar>e - 1 / 2\<bar> \<le> 5 / 2 ^ 53" by blast
  from half_count [OF assms(7) this(2) assms(5,6)] obtain s where
    s: "d_mul p (Fin x) (Fin e) = Fin s" and err: "\<bar>s - x / 2\<bar> \<le> 6 / 2 ^ 53 * \<bar>x\<bar>" by blast
  from k d q e s have "scores k = Some (Fin s)" by (simp add: decayed_def)
  moreover have "6 / 2 ^ 53 * \<bar>x\<bar> \<le> (1 / 10 ^ 9) * \<bar>x / 2\<bar>" by simp
  with err have "\<bar>s - x / 2\<bar> \<le> (1 / 10 ^ 9) * \<bar>x / 2\<bar>" by (rule order_trans)
  ultimately show ?thesis by blast
qed

theorem C9_half_life_witness:
  "d_sub exact (Fin 10) (Fin 0) = Fin 10
   \<and> (\<exists>s. [''a'' \<mapsto> Fin 5, ''b'' \<mapsto> Fin 4] ''a'' = Some (Fin s)
          \<and> \<bar>s - 10 / 2\<bar> \<le> (1 / 10 ^ 9) * \<bar>10 / 2\<bar>)"
proof -
  let ?ac = "[(''a'', PyFloat (Fin 10)), (''b'', PyFloat (Fin 4))]"
  have dist: "distinct (map fst ?ac)" by simp
  have a: "(''a'', PyFloat (Fin 10)) \<in> set ?ac" by simp
  have c: "cast_double exact (PyFloat (Fin 10)) = Inr (Fin 10)" by simp
  have lo: "4 * min_normal \<le> \<bar>10::real\<bar>" and hi: "\<bar>10::real\<bar> \<le> 1 / min_normal"
    and hlo: "min_normal \<le> (10::real)" and hhi: "(10::real) \<le> 1 / (4 * min_normal)"
    by (simp_all add: min_normal_def)
  have t: "[''a'' \<mapsto> PyFloat (Fin 0)] ''a'' = Some (PyFloat (Fin 0))" by simp
  have ct: "cast_double exact (PyFloat (Fin 0)) = Inr (Fin 0)" by simp
  have dt: "d_sub exact (Fin 10) (Fin 0) = Fin 10"
    by (simp add: d_sub_def exact_def exact_round_numeral)
  from dt C9_half_life [OF run_example dist a c lo hi exact_accurate_rounding
      exact_accurate_exp exact_accurate_ln2 refl hlo hhi t ct dt]
  show ?thesis by (rule conjI)
qed

end
